theory Spec2Isabelle
  imports Main
begin

section \<open>JavaScript primitives used by the decimal engine\<close>

text \<open>
  \<^verbatim>\<open>MidaDecimal\<close> keeps a \<^verbatim>\<open>bigint\<close> and goes through strings for every
  construction: \<^verbatim>\<open>String(value).split(".")\<close>, \<^verbatim>\<open>Number(...)\<close>, \<^verbatim>\<open>BigInt(...)\<close>,
  \<^verbatim>\<open>padEnd\<close>, \<^verbatim>\<open>slice\<close>, \<^verbatim>\<open>replace\<close>. These built-ins are modelled here as the
  language defines them. A JavaScript string is a sequence of UTF-16 code units; the
  model uses \<^typ>\<open>char\<close>, so it covers the code units below 256.
  A \<^verbatim>\<open>bigint\<close> is an unbounded integer: \<^typ>\<open>int\<close>.
\<close>

datatype error =
    InvalidDecimal  \<comment> \<open>the \<^verbatim>\<open>Error\<close> thrown after \<^verbatim>\<open>fatal("Invalid decimal ...")\<close>\<close>
  | SyntaxError     \<comment> \<open>thrown by \<^verbatim>\<open>BigInt(string)\<close> on a string that is no integer literal\<close>
  | RangeError      \<comment> \<open>thrown by the \<^verbatim>\<open>bigint\<close> division on a zero divisor\<close>

subsection \<open>Characters and digit strings\<close>

definition isWhiteSpace :: "char \<Rightarrow> bool" where
  \<comment> \<open>WhiteSpace and LineTerminator code units below 256:
      TAB, LF, VT, FF, CR, SP, NBSP.\<close>
  "isWhiteSpace c = ((of_char c :: nat) \<in> {9, 10, 11, 12, 13, 32, 160})"

definition trim :: "string \<Rightarrow> string" where
  "trim s = rev (dropWhile isWhiteSpace (rev (dropWhile isWhiteSpace s)))"

definition digitOf :: "char \<Rightarrow> nat" where
  \<comment> \<open>the value of a digit character, 16 for a character that is no digit\<close>
  "digitOf c =
     (let n = (of_char c :: nat) in
      if 48 \<le> n \<and> n \<le> 57 then n - 48
      else if 97 \<le> n \<and> n \<le> 102 then n - 87
      else if 65 \<le> n \<and> n \<le> 70 then n - 55
      else 16)"

definition isDecimalDigit :: "char \<Rightarrow> bool" where
  "isDecimalDigit c = (digitOf c < 10)"

definition digits :: "nat \<Rightarrow> string \<Rightarrow> bool" where
  \<comment> \<open>a non-empty run of digits of the radix\<close>
  "digits r s = (s \<noteq> [] \<and> list_all (\<lambda>c. digitOf c < r) s)"

definition radixValue :: "nat \<Rightarrow> string \<Rightarrow> int" where
  "radixValue r s = foldl (\<lambda>a c. int r * a + int (digitOf c)) 0 s"

definition radixPrefix :: "string \<Rightarrow> (nat \<times> string) option" where
  \<comment> \<open>NonDecimalIntegerLiteral: \<^verbatim>\<open>0x\<close>, \<^verbatim>\<open>0o\<close>, \<^verbatim>\<open>0b\<close> in either case\<close>
  "radixPrefix t =
     (case t of
        c0 # c1 # rest \<Rightarrow>
          if c0 = CHR ''0'' then
            (if c1 = CHR ''x'' \<or> c1 = CHR ''X'' then Some (16, rest)
             else if c1 = CHR ''o'' \<or> c1 = CHR ''O'' then Some (8, rest)
             else if c1 = CHR ''b'' \<or> c1 = CHR ''B'' then Some (2, rest)
             else None)
          else None
      | _ \<Rightarrow> None)"

subsection \<open>\<^verbatim>\<open>BigInt(string)\<close>, \<^verbatim>\<open>BigInt(boolean)\<close> and \<^verbatim>\<open>bigint.toString()\<close>\<close>

definition StringToBigInt :: "string \<Rightarrow> int option" where
  \<comment> \<open>StringToBigInt: white space is trimmed, the empty string is \<^verbatim>\<open>0n\<close>, a decimal
      literal may carry a sign, a prefixed literal may not; \<open>None\<close> is the SyntaxError.\<close>
  "StringToBigInt s =
     (let t = trim s in
      if t = [] then Some 0
      else case radixPrefix t of
        Some (r, ds) \<Rightarrow> if digits r ds then Some (radixValue r ds) else None
      | None \<Rightarrow>
          (case t of
             [] \<Rightarrow> Some 0
           | c # ds \<Rightarrow>
               if c = CHR ''-'' then (if digits 10 ds then Some (- radixValue 10 ds) else None)
               else if c = CHR ''+'' then (if digits 10 ds then Some (radixValue 10 ds) else None)
               else if digits 10 t then Some (radixValue 10 t) else None))"

definition BooleanToBigInt :: "bool \<Rightarrow> int" where
  "BooleanToBigInt b = (if b then 1 else 0)"

definition digitChar :: "int \<Rightarrow> char" where
  "digitChar d = ''0123456789'' ! nat d"

function intDigits :: "int \<Rightarrow> string" where
  \<comment> \<open>the decimal digits of a non-negative integer, without leading zeros\<close>
  "intDigits n =
     (if n < 10 then [digitChar n]
      else intDigits (n div 10) @ [digitChar (n mod 10)])"
  by pat_completeness auto
termination
  by (relation "measure nat") auto

declare intDigits.simps [simp del]

definition BigInt_toString :: "int \<Rightarrow> string" where
  "BigInt_toString v = (if v < 0 then CHR ''-'' # intDigits (- v) else intDigits v)"

subsection \<open>The \<^verbatim>\<open>bigint\<close> operators \<^verbatim>\<open>/\<close> and \<^verbatim>\<open>%\<close>\<close>

definition BigInt_divide :: "int \<Rightarrow> int \<Rightarrow> error + int" where
  \<comment> \<open>the quotient truncated towards zero; a zero divisor throws a RangeError\<close>
  "BigInt_divide x y =
     (if y = 0 then Inl RangeError else Inr (sgn x * sgn y * (\<bar>x\<bar> div \<bar>y\<bar>)))"

definition BigInt_remainder :: "int \<Rightarrow> int \<Rightarrow> error + int" where
  \<comment> \<open>the remainder carries the sign of the dividend\<close>
  "BigInt_remainder x y =
     (if y = 0 then Inl RangeError else Inr (sgn x * (\<bar>x\<bar> mod \<bar>y\<bar>)))"

subsection \<open>\<^verbatim>\<open>Number.isFinite(Number(string))\<close>\<close>

definition numberLimit :: int where
  \<comment> \<open>The largest double is \<open>2^1024 - 2^971\<close>; a real number rounds to a finite double
      exactly when it is below the midpoint between that and \<open>2^1024\<close> (the tie goes
      to the even neighbour, which is the infinite one).\<close>
  "numberLimit = 2 ^ 1024 - 2 ^ 970"

definition exponentPart :: "string \<Rightarrow> int option" where
  \<comment> \<open>ExponentPart, optional: \<^verbatim>\<open>e\<close> or \<^verbatim>\<open>E\<close>, an optional sign, decimal digits\<close>
  "exponentPart s =
     (case s of
        [] \<Rightarrow> Some 0
      | c # r \<Rightarrow>
          if c = CHR ''e'' \<or> c = CHR ''E'' then
            (case r of
               [] \<Rightarrow> None
             | sg # ds \<Rightarrow>
                 if sg = CHR ''-'' then (if digits 10 ds then Some (- radixValue 10 ds) else None)
                 else if sg = CHR ''+'' then (if digits 10 ds then Some (radixValue 10 ds) else None)
                 else if digits 10 r then Some (radixValue 10 r) else None)
          else None)"

definition StrUnsignedDecimalLiteral :: "string \<Rightarrow> (int \<times> int) option" where
  \<comment> \<open>digits, an optional point with digits, an optional exponent, at least one digit
      in all: the pair \<open>(m, k)\<close> stands for the mathematical value \<open>m * 10^k\<close>\<close>
  "StrUnsignedDecimalLiteral u =
     (let ip = takeWhile isDecimalDigit u;
          r1 = dropWhile isDecimalDigit u;
          fp = (case r1 of [] \<Rightarrow> []
                | c # r \<Rightarrow> if c = CHR ''.'' then takeWhile isDecimalDigit r else []);
          r2 = (case r1 of [] \<Rightarrow> []
                | c # r \<Rightarrow> if c = CHR ''.'' then dropWhile isDecimalDigit r else r1)
      in if ip = [] \<and> fp = [] then None
         else case exponentPart r2 of
                None \<Rightarrow> None
              | Some e \<Rightarrow> Some (radixValue 10 (ip @ fp), e - int (length fp)))"

definition Number_isFinite :: "string \<Rightarrow> bool" where
  \<comment> \<open>\<^verbatim>\<open>Number.isFinite(Number(s))\<close>: StringToNumber trims white space, reads the empty
      string as 0, a prefixed literal without sign, \<^verbatim>\<open>Infinity\<close> or a decimal literal with
      an optional sign, and anything else as NaN; the value is rounded to the nearest
      double, as V8 does at any length.\<close>
  "Number_isFinite s =
     (let t = trim s in
      if t = [] then True
      else case radixPrefix t of
        Some (r, ds) \<Rightarrow> digits r ds \<and> radixValue r ds < numberLimit
      | None \<Rightarrow>
          (let u = (case t of [] \<Rightarrow> []
                    | c # r \<Rightarrow> if c = CHR ''+'' \<or> c = CHR ''-'' then r else t)
           in if u = ''Infinity'' then False
              else case StrUnsignedDecimalLiteral u of
                     None \<Rightarrow> False
                   | Some (m, k) \<Rightarrow>
                       if 0 \<le> k then m * 10 ^ nat k < numberLimit
                       else m < numberLimit * 10 ^ nat (- k)))"

subsection \<open>String methods\<close>

fun splitOn :: "char \<Rightarrow> string \<Rightarrow> string list" where
  \<comment> \<open>\<^verbatim>\<open>s.split(sep)\<close> for a separator of one character\<close>
  "splitOn sep [] = [[]]"
| "splitOn sep (c # cs) =
     (if c = sep then [] # splitOn sep cs
      else (case splitOn sep cs of [] \<Rightarrow> [[c]] | p # ps \<Rightarrow> (c # p) # ps))"

fun indexOf :: "string \<Rightarrow> char \<Rightarrow> int" where
  "indexOf [] c = - 1"
| "indexOf (x # xs) c =
     (if x = c then 0 else (let i = indexOf xs c in if i = - 1 then - 1 else i + 1))"

fun replaceFirst :: "string \<Rightarrow> char \<Rightarrow> string \<Rightarrow> string" where
  \<comment> \<open>\<^verbatim>\<open>s.replace(c, r)\<close> with a string pattern: only the first occurrence\<close>
  "replaceFirst [] c r = []"
| "replaceFirst (x # xs) c r = (if x = c then r @ xs else x # replaceFirst xs c r)"

definition padEnd :: "nat \<Rightarrow> char \<Rightarrow> string \<Rightarrow> string" where
  "padEnd n c s = s @ replicate (n - length s) c"

definition padStart :: "nat \<Rightarrow> char \<Rightarrow> string \<Rightarrow> string" where
  "padStart n c s = replicate (n - length s) c @ s"

definition replaceTrailingZeros :: "string \<Rightarrow> string" where
  \<comment> \<open>\<^verbatim>\<open>s.replace(/\.?0+$/, "")\<close>: the leftmost match is the whole final run of zeros,
      with the point right before it when there is one; no final zero, no match.\<close>
  "replaceTrailingZeros s =
     (let body = rev (dropWhile (\<lambda>c. c = CHR ''0'') (rev s)) in
      if length body = length s then s
      else if body \<noteq> [] \<and> last body = CHR ''.'' then butlast body
      else body)"

definition replaceTrailingDot :: "string \<Rightarrow> string" where
  \<comment> \<open>\<^verbatim>\<open>s.replace(/\.$/, "")\<close>\<close>
  "replaceTrailingDot s = (if s \<noteq> [] \<and> last s = CHR ''.'' then butlast s else s)"

section \<open>MidaDecimal\<close>

text \<open>
  The class holds one private field, \<^verbatim>\<open>#value: bigint\<close>, the number scaled by
  \<open>10^32\<close>. The static members \<^verbatim>\<open>#decimals = 32\<close>, \<^verbatim>\<open>#rounded = true\<close> and
  \<^verbatim>\<open>#shift = BigInt("1" + "0".repeat(32))\<close> are constants.
\<close>

datatype MidaDecimal = MidaDecimal (val: int)

definition decimals_count :: nat where
  "decimals_count = 32"

definition rounded :: bool where
  "rounded = True"

definition shift :: int where
  "shift = 10 ^ 32"

definition MidaDecimal_toString :: "int \<Rightarrow> string" where
  \<comment> \<open>the static \<^verbatim>\<open>#toString(value: bigint)\<close>\<close>
  "MidaDecimal_toString v =
     (let descriptor = padStart (decimals_count + 1) CHR ''0'' (BigInt_toString v);
          integers = take (length descriptor - decimals_count) descriptor;
          decimals = replaceTrailingZeros (drop (length descriptor - decimals_count) descriptor);
          negDecimals = (indexOf decimals CHR ''-'' \<noteq> - 1);
          decimals = (if negDecimals then replaceFirst decimals CHR ''-'' ''0'' else decimals);
          negIntegers = (indexOf integers CHR ''-'' \<noteq> - 1);
          integers = (if negIntegers then replaceFirst integers CHR ''-'' [] else integers);
          isNegative = (if negIntegers then True else if negDecimals then True else False)
      in (if isNegative then ''-'' else []) @ replaceTrailingDot (integers @ ''.'' @ decimals))"

definition toString :: "MidaDecimal \<Rightarrow> string" where
  "toString this = MidaDecimal_toString (val this)"

text \<open>
  \<^verbatim>\<open>MidaDecimalConvertible\<close> is the argument type of the constructor and of every
  method. The constructor reads its argument only through \<^verbatim>\<open>String(value)\<close>, which
  for a \<^verbatim>\<open>MidaDecimal\<close> is its \<^verbatim>\<open>toString()\<close>. A number argument reaches the
  constructor as the string JavaScript prints for it; the two number literals of the
  source, \<^verbatim>\<open>0\<close> and \<^verbatim>\<open>-1\<close>, print as \<^verbatim>\<open>"0"\<close> and \<^verbatim>\<open>"-1"\<close>.
\<close>

datatype MidaDecimalConvertible = FromString string | FromDecimal MidaDecimal

fun String_of :: "MidaDecimalConvertible \<Rightarrow> string" where
  "String_of (FromString s) = s"
| "String_of (FromDecimal d) = toString d"

definition constructor_parts :: "string \<Rightarrow> bool \<times> string \<times> string" where
  \<comment> \<open>lines 31 to 42 of the constructor: the two parts and the sign\<close>
  "constructor_parts s =
     (let parts = splitOn CHR ''.'' s @ [[]];
          integers = parts ! 0;
          decimals = parts ! 1;
          negDecimals = (indexOf decimals CHR ''-'' \<noteq> - 1);
          decimals = (if negDecimals then replaceFirst decimals CHR ''-'' ''0'' else decimals);
          negIntegers = (indexOf integers CHR ''-'' \<noteq> - 1);
          integers = (if negIntegers then replaceFirst integers CHR ''-'' [] else integers);
          isNegative = (if negIntegers then True else if negDecimals then True else False)
      in (isNegative, integers, decimals))"

definition roundingDigit :: "string \<Rightarrow> bool" where
  \<comment> \<open>\<^verbatim>\<open>Number(decimals[32]) >= 5\<close>: past the end the index gives \<^verbatim>\<open>undefined\<close>, which is
      NaN as a number; a single character is a number at least 5 only when it is one
      of the digits 5 to 9\<close>
  "roundingDigit decimals =
     (if decimals_count < length decimals
      then isDecimalDigit (decimals ! decimals_count) \<and> 5 \<le> digitOf (decimals ! decimals_count)
      else False)"

definition new_MidaDecimal :: "string \<Rightarrow> error + MidaDecimal" where
  \<comment> \<open>the constructor, applied to \<^verbatim>\<open>String(value)\<close>\<close>
  "new_MidaDecimal s =
     (case constructor_parts s of
        (isNegative, integers, decimals) \<Rightarrow>
          if \<not> Number_isFinite integers then Inl InvalidDecimal
          else if \<not> Number_isFinite decimals then Inl InvalidDecimal
          else
            (case StringToBigInt
                    ((if isNegative then ''-'' else []) @ integers @
                     take decimals_count (padEnd decimals_count CHR ''0'' decimals)) of
               None \<Rightarrow> Inl SyntaxError
             | Some n \<Rightarrow>
                 Inr (MidaDecimal (n + BooleanToBigInt (rounded \<and> roundingDigit decimals)))))"

definition decimal :: "MidaDecimalConvertible \<Rightarrow> error + MidaDecimal" where
  "decimal v = new_MidaDecimal (String_of v)"

definition divideRoundValue :: "int \<Rightarrow> int \<Rightarrow> error + int" where
  \<comment> \<open>the \<^verbatim>\<open>bigint\<close> expression of \<^verbatim>\<open>#divideRound\<close>:
      \<^verbatim>\<open>dividend / divisor + (#rounded ? dividend * 2n / divisor % 2n : 0n)\<close>\<close>
  "divideRoundValue dividend divisor =
     (case BigInt_divide dividend divisor of
        Inl e \<Rightarrow> Inl e
      | Inr q \<Rightarrow>
          if rounded then
            (case BigInt_divide (dividend * 2) divisor of
               Inl e \<Rightarrow> Inl e
             | Inr d \<Rightarrow>
                 (case BigInt_remainder d 2 of
                    Inl e \<Rightarrow> Inl e
                  | Inr c \<Rightarrow> Inr (q + c)))
          else Inr (q + 0))"

definition divideRound :: "int \<Rightarrow> int \<Rightarrow> error + MidaDecimal" where
  "divideRound dividend divisor =
     (case divideRoundValue dividend divisor of
        Inl e \<Rightarrow> Inl e
      | Inr n \<Rightarrow> decimal (FromString (MidaDecimal_toString n)))"

definition add :: "MidaDecimal \<Rightarrow> MidaDecimalConvertible \<Rightarrow> error + MidaDecimal" where
  "add this operand =
     (case decimal operand of
        Inl e \<Rightarrow> Inl e
      | Inr d \<Rightarrow> decimal (FromString (MidaDecimal_toString (val this + val d))))"

definition subtract :: "MidaDecimal \<Rightarrow> MidaDecimalConvertible \<Rightarrow> error + MidaDecimal" where
  "subtract this operand =
     (case decimal operand of
        Inl e \<Rightarrow> Inl e
      | Inr d \<Rightarrow> decimal (FromString (MidaDecimal_toString (val this - val d))))"

definition multiply :: "MidaDecimal \<Rightarrow> MidaDecimalConvertible \<Rightarrow> error + MidaDecimal" where
  "multiply this operand =
     (case decimal operand of
        Inl e \<Rightarrow> Inl e
      | Inr d \<Rightarrow> divideRound (val this * val d) shift)"

definition divide_decimal :: "MidaDecimal \<Rightarrow> MidaDecimalConvertible \<Rightarrow> error + MidaDecimal" where
  \<comment> \<open>the method \<^verbatim>\<open>divide\<close>\<close>
  "divide_decimal this operand =
     (case decimal operand of
        Inl e \<Rightarrow> Inl e
      | Inr d \<Rightarrow> divideRound (val this * shift) (val d))"

definition equals :: "MidaDecimal \<Rightarrow> MidaDecimalConvertible \<Rightarrow> error + bool" where
  "equals this operand =
     (case decimal operand of Inl e \<Rightarrow> Inl e | Inr d \<Rightarrow> Inr (val this = val d))"

definition greaterThan_decimal :: "MidaDecimal \<Rightarrow> MidaDecimalConvertible \<Rightarrow> error + bool" where
  \<comment> \<open>the method \<^verbatim>\<open>greaterThan\<close>\<close>
  "greaterThan_decimal this operand =
     (case decimal operand of Inl e \<Rightarrow> Inl e | Inr d \<Rightarrow> Inr (val this > val d))"

definition lessThan_decimal :: "MidaDecimal \<Rightarrow> MidaDecimalConvertible \<Rightarrow> error + bool" where
  \<comment> \<open>the method \<^verbatim>\<open>lessThan\<close>\<close>
  "lessThan_decimal this operand =
     (case decimal operand of Inl e \<Rightarrow> Inl e | Inr d \<Rightarrow> Inr (val this < val d))"

definition greaterThanOrEqual :: "MidaDecimal \<Rightarrow> MidaDecimalConvertible \<Rightarrow> error + bool" where
  \<comment> \<open>\<^verbatim>\<open>this.greaterThan(operand) || this.equals(operand)\<close>, the second call only when
      the first returned false\<close>
  "greaterThanOrEqual this operand =
     (case greaterThan_decimal this operand of
        Inl e \<Rightarrow> Inl e
      | Inr b \<Rightarrow> if b then Inr True else equals this operand)"

definition lessThanOrEqual :: "MidaDecimal \<Rightarrow> MidaDecimalConvertible \<Rightarrow> error + bool" where
  "lessThanOrEqual this operand =
     (case lessThan_decimal this operand of
        Inl e \<Rightarrow> Inl e
      | Inr b \<Rightarrow> if b then Inr True else equals this operand)"

definition abs_decimal :: "MidaDecimal \<Rightarrow> error + MidaDecimal" where
  \<comment> \<open>the static \<^verbatim>\<open>abs\<close>; \<^verbatim>\<open>String(0)\<close> is \<^verbatim>\<open>"0"\<close> and \<^verbatim>\<open>String(-1)\<close> is \<^verbatim>\<open>"-1"\<close>\<close>
  "abs_decimal operand =
     (case lessThan_decimal operand (FromString ''0'') of
        Inl e \<Rightarrow> Inl e
      | Inr b \<Rightarrow> if b then multiply operand (FromString ''-1'') else Inr operand)"

text \<open>
  The loops of \<^verbatim>\<open>min\<close> and \<^verbatim>\<open>max\<close> run \<^verbatim>\<open>i\<close> from 1 to the length of the argument
  list; the body reads \<^verbatim>\<open>operands[0]\<close>, as the source does. On the empty list
  \<^verbatim>\<open>operands[0]\<close> is \<^verbatim>\<open>undefined\<close>, the loop does not run and \<^verbatim>\<open>undefined\<close> is
  returned: \<open>None\<close>.
\<close>

function min_loop :: "MidaDecimal list \<Rightarrow> nat \<Rightarrow> MidaDecimal \<Rightarrow> error + MidaDecimal" where
  "min_loop operands i m =
     (if i < length operands then
        (let operand = operands ! 0 in
         case lessThan_decimal operand (FromDecimal m) of
           Inl e \<Rightarrow> Inl e
         | Inr b \<Rightarrow> min_loop operands (i + 1) (if b then operand else m))
      else Inr m)"
  by pat_completeness auto
termination
  by (relation "measure (\<lambda>(operands, i, m). length operands - i)") auto

declare min_loop.simps [simp del]

definition min_decimal :: "MidaDecimal list \<Rightarrow> error + MidaDecimal option" where
  "min_decimal operands =
     (case operands of
        [] \<Rightarrow> Inr None
      | first # _ \<Rightarrow>
          (case min_loop operands 1 first of Inl e \<Rightarrow> Inl e | Inr m \<Rightarrow> Inr (Some m)))"

function max_loop :: "MidaDecimal list \<Rightarrow> nat \<Rightarrow> MidaDecimal \<Rightarrow> error + MidaDecimal" where
  "max_loop operands i m =
     (if i < length operands then
        (let operand = operands ! 0 in
         case greaterThan_decimal operand (FromDecimal m) of
           Inl e \<Rightarrow> Inl e
         | Inr b \<Rightarrow> max_loop operands (i + 1) (if b then operand else m))
      else Inr m)"
  by pat_completeness auto
termination
  by (relation "measure (\<lambda>(operands, i, m). length operands - i)") auto

declare max_loop.simps [simp del]

definition max_decimal :: "MidaDecimal list \<Rightarrow> error + MidaDecimal option" where
  "max_decimal operands =
     (case operands of
        [] \<Rightarrow> Inr None
      | first # _ \<Rightarrow>
          (case max_loop operands 1 first of Inl e \<Rightarrow> Inl e | Inr m \<Rightarrow> Inr (Some m)))"

section \<open>MidaEmitter\<close>

text \<open>
  Modelled from the spec: the emitter class is not among the sources (only its test file
  is), so its state and operations follow the specification: a table from event type to
  the ordered sequence of registrations, each with a unique id, a callback and a one-shot
  flag. Ids are opaque unique strings in the specification; the model issues them from a
  counter. A callback is a function of the event it is invoked with; its outcome is to
  return or to throw, and the emitter of the synchronous variant does not catch what it
  throws. What a dispatch does is recorded as the list of invocations it makes, in order.
\<close>

datatype outcome = Returned | Thrown

record 'd event =
  ev_type :: string
  ev_timestamp :: nat
  ev_data :: 'd

record 'd registration =
  reg_id :: nat
  reg_callback :: "'d event \<Rightarrow> outcome"
  reg_oneShot :: bool

record 'd emitter =
  listenersByType :: "string \<Rightarrow> 'd registration list"
  issued :: nat





definition removeEventListener :: "nat \<Rightarrow> 'd emitter \<Rightarrow> 'd emitter" where
  \<comment> \<open>Modelled from the spec: \<^verbatim>\<open>removeEventListener(id)\<close> removes the registration with
      that id from whichever type holds it, and does nothing for an unknown id.\<close>
  "removeEventListener i e =
     e\<lparr>listenersByType := (\<lambda>t. filter (\<lambda>r. reg_id r \<noteq> i) (listenersByType e t))\<rparr>"

fun dispatch ::
  "'d event \<Rightarrow> 'd registration list \<Rightarrow> (nat \<times> 'd event) list \<times> 'd registration list \<times> outcome" where
  \<comment> \<open>Modelled from the spec: the synchronous dispatch loop. Each registration is
      invoked in registration order; a one-shot registration is removed once its
      invocation has returned; a callback that throws is not caught, so its exception
      leaves the loop at once and the registrations after it are not invoked. The
      result holds the invocations made, the registrations that remain and the outcome.\<close>
  "dispatch ev [] = ([], [], Returned)"
| "dispatch ev (r # rs) =
     (case reg_callback r ev of
        Thrown \<Rightarrow> ([(reg_id r, ev)], r # rs, Thrown)
      | Returned \<Rightarrow>
          (case dispatch ev rs of
             (invs, rest, out) \<Rightarrow>
               ((reg_id r, ev) # invs, (if reg_oneShot r then rest else r # rest), out)))"

definition notifyListeners ::
  "string \<Rightarrow> 'd \<Rightarrow> nat \<Rightarrow> 'd emitter \<Rightarrow> (nat \<times> 'd event) list \<times> 'd emitter \<times> outcome" where
  \<comment> \<open>Modelled from the spec: \<^verbatim>\<open>notifyListeners(type, data)\<close> builds the event and
      dispatches it to the current registrations of the type; an exception of a
      listener propagates to the caller.\<close>
  "notifyListeners t d now e =
     (case dispatch \<lparr>ev_type = t, ev_timestamp = now, ev_data = d\<rparr> (listenersByType e t) of
        (invs, rest, out) \<Rightarrow>
          (invs, e\<lparr>listenersByType := (listenersByType e)(t := rest)\<rparr>, out))"




definition invocationsCount :: "nat \<Rightarrow> (nat \<times> 'd event) list \<Rightarrow> nat" where
  \<comment> \<open>Modelled from the spec: how many of the invocations are of the listener with
      the given id (the external counter of the specification's test).\<close>
  "invocationsCount i invs = length (filter (\<lambda>x. fst x = i) invs)"









section \<open>Rounding division\<close>

text \<open>
  With \<open>A\<close> and \<open>B\<close> the magnitudes of dividend and divisor, the parity of
  \<open>2A div B\<close> tells whether the remainder of \<open>A\<close> by \<open>B\<close> is at least half of \<open>B\<close>.
\<close>

lemma double_div_mod2:
  fixes A B :: int
  assumes "0 \<le> A" "0 < B"
  shows "(2 * A div B) mod 2 = (if B \<le> 2 * (A mod B) then 1 else 0)"
proof -
  have A: "2 * A = B * (2 * (A div B)) + 2 * (A mod B)"
  proof -
    have e: "B * (A div B) + A mod B = A" by simp
    have "B * (2 * (A div B)) = 2 * (B * (A div B))" by simp
    with e show ?thesis by linarith
  qed
  have r: "0 \<le> A mod B" "A mod B < B" using assms by simp_all
  show ?thesis
  proof (cases "B \<le> 2 * (A mod B)")
    case True
    have "2 * A = B * (2 * (A div B) + 1) + (2 * (A mod B) - B)"
      using A by (simp add: algebra_simps)
    moreover have "0 \<le> 2 * (A mod B) - B" "2 * (A mod B) - B < B" using True r by simp_all
    ultimately have "2 * A div B = 2 * (A div B) + 1"
      by (rule int_div_pos_eq)
    then show ?thesis using True by simp
  next
    case False
    then have "2 * (A mod B) < B" by simp
    moreover have "0 \<le> 2 * (A mod B)" using r by simp
    ultimately have "2 * A div B = 2 * (A div B)"
      using A int_div_pos_eq [of "2 * A" B "2 * (A div B)" "2 * (A mod B)"] by simp
    then show ?thesis using False by simp
  qed
qed

lemma divideRoundValue_eq:
  assumes "divisor \<noteq> 0"
  shows "divideRoundValue dividend divisor =
     Inr (sgn dividend * sgn divisor *
          (if \<bar>divisor\<bar> \<le> 2 * (\<bar>dividend\<bar> mod \<bar>divisor\<bar>)
           then \<bar>dividend\<bar> div \<bar>divisor\<bar> + 1 else \<bar>dividend\<bar> div \<bar>divisor\<bar>))"
proof -
  let ?A = "\<bar>dividend\<bar>" and ?B = "\<bar>divisor\<bar>"
  let ?s = "sgn dividend * sgn divisor"
  let ?d = "sgn (dividend * 2) * sgn divisor * (\<bar>dividend * 2\<bar> div ?B)"
  have B: "0 < ?B" using assms by simp
  have m: "(2 * ?A div ?B) mod 2 = (if ?B \<le> 2 * (?A mod ?B) then 1 else 0)"
    using double_div_mod2 [of ?A ?B] B by simp
  have nn: "0 \<le> 2 * ?A div ?B" using B by (simp add: pos_imp_zdiv_nonneg_iff)
  have d: "?d = ?s * (2 * ?A div ?B)"
    by (simp add: sgn_mult abs_mult mult.commute)
  have c: "sgn ?d * (\<bar>?d\<bar> mod 2) = ?s * ((2 * ?A div ?B) mod 2)"
  proof (cases "dividend = 0")
    case True then show ?thesis by simp
  next
    case False
    then have s1: "?s = 1 \<or> ?s = - 1" using assms by (auto simp: sgn_if)
    show ?thesis
    proof (cases "2 * ?A div ?B = 0")
      case True then show ?thesis unfolding d by simp
    next
      case False
      then have pos: "0 < 2 * ?A div ?B" using nn by simp
      from s1 show ?thesis unfolding d using pos by (auto simp: sgn_mult abs_mult)
    qed
  qed
  have "divideRoundValue dividend divisor = Inr (?s * (?A div ?B) + sgn ?d * (\<bar>?d\<bar> mod 2))"
    using assms by (simp add: divideRoundValue_def BigInt_divide_def BigInt_remainder_def rounded_def)
  also have "\<dots> = Inr (?s * (?A div ?B + (2 * ?A div ?B) mod 2))"
    unfolding c by (simp add: algebra_simps)
  finally show ?thesis unfolding m by (simp split: if_splits)
qed

lemma nearest_aux:
  fixes A B q m k :: int
  assumes e: "B * q + m = A" and m: "0 \<le> m" "m < B"
    and k: "k = (if B \<le> 2 * m then q + 1 else q)"
  shows "2 * \<bar>A - k * B\<bar> \<le> B \<and> (2 * \<bar>A - k * B\<bar> < B \<or> A < k * B)"
proof (cases "B \<le> 2 * m")
  case True
  then have "k * B = B * q + B" by (simp add: k algebra_simps)
  with e have d: "A - k * B = m - B" and lt: "A < k * B" using m by linarith+
  have "\<bar>m - B\<bar> = B - m" using m by simp
  with d True lt show ?thesis by simp
next
  case False
  then have "k * B = B * q" by (simp add: k algebra_simps)
  with e have d: "A - k * B = m" by linarith
  have "\<bar>m\<bar> = m" using m by simp
  with d False show ?thesis by simp
qed

lemma divideRoundValue_nearest:
  assumes "divisor \<noteq> 0"
  shows "\<exists>r. divideRoundValue dividend divisor = Inr r \<and>
           2 * \<bar>dividend - r * divisor\<bar> \<le> \<bar>divisor\<bar> \<and>
           (2 * \<bar>dividend - r * divisor\<bar> < \<bar>divisor\<bar> \<or> \<bar>dividend\<bar> < \<bar>r * divisor\<bar>)"
proof -
  let ?A = "\<bar>dividend\<bar>" and ?B = "\<bar>divisor\<bar>"
  define k where "k = (if ?B \<le> 2 * (?A mod ?B) then ?A div ?B + 1 else ?A div ?B)"
  define r where "r = sgn dividend * sgn divisor * k"
  have B: "0 < ?B" using assms by simp
  have q: "0 \<le> ?A div ?B" using B by (simp add: pos_imp_zdiv_nonneg_iff)
  have k0: "0 \<le> k" using q by (simp add: k_def)
  have res: "divideRoundValue dividend divisor = Inr r"
    unfolding r_def k_def using assms by (rule divideRoundValue_eq)
  have aux: "2 * \<bar>?A - k * ?B\<bar> \<le> ?B \<and> (2 * \<bar>?A - k * ?B\<bar> < ?B \<or> ?A < k * ?B)"
    using B by (intro nearest_aux [where q = "?A div ?B" and m = "?A mod ?B"]) (simp_all add: k_def)
  have rb: "r * divisor = sgn dividend * (k * ?B)"
  proof -
    have "sgn divisor * divisor = ?B" by (simp add: abs_sgn mult.commute)
    then have "sgn dividend * sgn divisor * k * divisor = sgn dividend * (k * ?B)"
      by (simp add: mult.assoc mult.left_commute)
    then show ?thesis by (simp add: r_def)
  qed
  have a: "dividend = sgn dividend * ?A" by (simp add: sgn_mult_abs)
  have "dividend - r * divisor = sgn dividend * ?A - sgn dividend * (k * ?B)"
    unfolding rb using a by simp
  then have "dividend - r * divisor = sgn dividend * (?A - k * ?B)"
    by (simp only: right_diff_distrib)
  then have d: "\<bar>dividend - r * divisor\<bar> = \<bar>sgn dividend\<bar> * \<bar>?A - k * ?B\<bar>"
    by (simp only: abs_mult)
  have kB: "\<bar>k * ?B\<bar> = k * ?B" using k0 B by simp
  have ar: "\<bar>r * divisor\<bar> = \<bar>sgn dividend\<bar> * (k * ?B)"
    unfolding rb using k0 by (simp add: abs_mult)
  show ?thesis
  proof (cases "dividend = 0")
    case True
    then have "\<bar>dividend - r * divisor\<bar> = 0" using d by simp
    then have "2 * \<bar>dividend - r * divisor\<bar> < ?B" using B by simp
    with res show ?thesis by force
  next
    case False
    then have s: "\<bar>sgn dividend\<bar> = 1" by (simp add: sgn_if)
    have e1: "\<bar>dividend - r * divisor\<bar> = \<bar>?A - k * ?B\<bar>"
      and e2: "\<bar>r * divisor\<bar> = k * ?B"
      using d ar s by simp_all
    have "2 * \<bar>dividend - r * divisor\<bar> \<le> ?B \<and>
        (2 * \<bar>dividend - r * divisor\<bar> < ?B \<or> ?A < \<bar>r * divisor\<bar>)"
      unfolding e1 e2 by (rule aux)
    with res show ?thesis by blast
  qed
qed

text \<open>
  Claim C3. The integer division of \<^verbatim>\<open>#divideRound\<close>, the truncating quotient plus the
  correction term \<^verbatim>\<open>dividend * 2n / divisor % 2n\<close>, rounds half away from zero for every
  sign of dividend and divisor: the result carries the sign of the exact quotient, and
  its magnitude is the truncated magnitude, plus one exactly when the discarded fraction
  \<open>(|dividend| mod |divisor|) / |divisor|\<close> is one half or more. In other words the
  result is an integer nearest to the exact quotient, and the one of greater magnitude
  when two integers are equally near.
\<close>

theorem divideRound_half_away_from_zero:
  assumes "divisor \<noteq> 0"
  shows "divideRoundValue dividend divisor =
     Inr (sgn dividend * sgn divisor *
          (if \<bar>divisor\<bar> \<le> 2 * (\<bar>dividend\<bar> mod \<bar>divisor\<bar>)
           then \<bar>dividend\<bar> div \<bar>divisor\<bar> + 1 else \<bar>dividend\<bar> div \<bar>divisor\<bar>)) \<and>
     (\<exists>r. divideRoundValue dividend divisor = Inr r \<and>
          2 * \<bar>dividend - r * divisor\<bar> \<le> \<bar>divisor\<bar> \<and>
          (2 * \<bar>dividend - r * divisor\<bar> < \<bar>divisor\<bar> \<or> \<bar>dividend\<bar> < \<bar>r * divisor\<bar>))"
  using divideRoundValue_eq [OF assms] divideRoundValue_nearest [OF assms] by blast

theorem divideRound_half_away_from_zero_witness:
  "(2::int) \<noteq> 0 \<and> divideRoundValue (- 5) 2 = Inr (- 3) \<and> divideRoundValue 5 (- 2) = Inr (- 3)
   \<and> divideRoundValue (- 5) (- 2) = Inr 3 \<and> divideRoundValue 5 2 = Inr 3
   \<and> divideRoundValue (- 4) 3 = Inr (- 1) \<and> divideRoundValue 5 3 = Inr 2"
  using divideRound_half_away_from_zero [of 2 "- 5", THEN conjunct1]
    divideRound_half_away_from_zero [of "- 2" 5, THEN conjunct1]
    divideRound_half_away_from_zero [of "- 2" "- 5", THEN conjunct1]
    divideRound_half_away_from_zero [of 2 5, THEN conjunct1]
    divideRound_half_away_from_zero [of 3 "- 4", THEN conjunct1]
    divideRound_half_away_from_zero [of 3 5, THEN conjunct1]
  by simp

section \<open>Digit strings\<close>

text \<open>
  The value of a digit string, the digits of a non-negative integer, and the string
  methods on strings without the character they look for.
\<close>

lemma decimal_digit_iff: "digitOf c < 10 \<longleftrightarrow> 48 \<le> (of_char c :: nat) \<and> (of_char c :: nat) \<le> 57"
  by (auto simp: digitOf_def Let_def)

lemma decimal_digit_neq:
  assumes "digitOf c < 10"
  shows "c \<noteq> CHR ''-''" "c \<noteq> CHR ''.''" "c \<noteq> CHR ''+''" "\<not> isWhiteSpace c"
    "c \<noteq> CHR ''x''" "c \<noteq> CHR ''X''" "c \<noteq> CHR ''o''" "c \<noteq> CHR ''O''"
    "c \<noteq> CHR ''b''" "c \<noteq> CHR ''B''" "c \<noteq> CHR ''I''"
  using assms by (auto simp: decimal_digit_iff isWhiteSpace_def)

lemma digitOf_digitChar: "0 \<le> d \<Longrightarrow> d < 10 \<Longrightarrow> digitOf (digitChar d) = nat d"
proof -
  assume "0 \<le> d" "d < 10"
  then have "d = 0 \<or> d = 1 \<or> d = 2 \<or> d = 3 \<or> d = 4 \<or> d = 5 \<or> d = 6 \<or> d = 7 \<or> d = 8 \<or> d = 9"
    by arith
  then show ?thesis by (auto simp: digitChar_def digitOf_def)
qed

lemma radixValue_Nil [simp]: "radixValue r [] = 0"
  by (simp add: radixValue_def)

lemma radixValue_snoc: "radixValue r (xs @ [c]) = int r * radixValue r xs + int (digitOf c)"
  by (simp add: radixValue_def)

lemma radixValue_append:
  "radixValue r (xs @ ys) = radixValue r xs * int r ^ length ys + radixValue r ys"
proof (induction ys rule: rev_induct)
  case Nil
  then show ?case by simp
next
  case (snoc y ys)
  have "radixValue r (xs @ ys @ [y]) = int r * radixValue r (xs @ ys) + int (digitOf y)"
    using radixValue_snoc [of r "xs @ ys" y] by simp
  with snoc show ?case by (simp add: radixValue_snoc algebra_simps)
qed

lemma radixValue_bounds:
  "list_all (\<lambda>c. digitOf c < r) xs \<Longrightarrow> 0 \<le> radixValue r xs \<and> radixValue r xs < int r ^ length xs"
proof (induction xs rule: rev_induct)
  case Nil
  then show ?case by simp
next
  case (snoc x xs)
  then have ih: "0 \<le> radixValue r xs" "radixValue r xs + 1 \<le> int r ^ length xs"
    and x: "int (digitOf x) < int r" by simp_all
  have "int r * (radixValue r xs + 1) \<le> int r * int r ^ length xs"
    using ih(2) by (intro mult_left_mono) simp_all
  then have "int r * radixValue r xs + int (digitOf x) < int r * int r ^ length xs"
    using x by (simp add: algebra_simps)
  moreover have "0 \<le> int r * radixValue r xs" using ih(1) by simp
  ultimately show ?case by (simp add: radixValue_snoc)
qed

lemma digitOf_zero [simp]: "digitOf CHR ''0'' = 0"
  by (simp add: digitOf_def)

lemma radixValue_zeros [simp]: "radixValue r (replicate k CHR ''0'') = 0"
proof (induction k)
  case 0
  then show ?case by simp
next
  case (Suc k)
  have "replicate (Suc k) CHR ''0'' = replicate k CHR ''0'' @ [CHR ''0'']"
    by (simp add: replicate_append_same)
  then show ?case using Suc by (simp only: radixValue_snoc) simp
qed

lemma intDigits_props:
  "0 \<le> n \<Longrightarrow> intDigits n \<noteq> [] \<and> list_all (\<lambda>c. digitOf c < 10) (intDigits n)
      \<and> radixValue 10 (intDigits n) = n"
proof (induction n rule: intDigits.induct)
  case (1 n)
  show ?case
  proof (cases "n < 10")
    case True
    with 1(2) show ?thesis
      by (simp add: intDigits.simps [of n] digitOf_digitChar radixValue_def)
  next
    case False
    then have "0 \<le> n div 10" by simp
    with 1(1) False have ih: "intDigits (n div 10) \<noteq> []"
      "list_all (\<lambda>c. digitOf c < 10) (intDigits (n div 10))"
      "radixValue 10 (intDigits (n div 10)) = n div 10" by simp_all
    have m: "0 \<le> n mod 10" "n mod 10 < 10" by simp_all
    from False ih m show ?thesis
      by (simp add: intDigits.simps [of n] digitOf_digitChar radixValue_snoc)
  qed
qed

lemma indexOf_ge: "- 1 \<le> indexOf s c"
  by (induction s) (simp_all add: Let_def)

lemma indexOf_iff: "indexOf s c \<noteq> - 1 \<longleftrightarrow> c \<in> set s"
proof (induction s)
  case Nil
  then show ?case by simp
next
  case (Cons x s)
  have "indexOf s c + 1 \<noteq> - 1" using indexOf_ge [of s c] by simp
  with Cons show ?case by (auto simp: Let_def)
qed

lemma replaceFirst_absent: "c \<notin> set s \<Longrightarrow> replaceFirst s c r = s"
  by (induction s) auto

lemma replaceFirst_first: "c \<notin> set xs \<Longrightarrow> replaceFirst (xs @ c # ys) c r = xs @ r @ ys"
  by (induction xs) auto

lemma splitOn_nonempty: "splitOn sep s \<noteq> []"
  by (induction s) (auto split: list.splits)

lemma splitOn_absent: "sep \<notin> set s \<Longrightarrow> splitOn sep s = [s]"
  by (induction s) auto

lemma splitOn_first: "sep \<notin> set xs \<Longrightarrow> splitOn sep (xs @ sep # ys) = xs # splitOn sep ys"
  by (induction xs) (auto split: list.splits)

lemma trim_id: "s = [] \<or> (\<not> isWhiteSpace (hd s) \<and> \<not> isWhiteSpace (last s)) \<Longrightarrow> trim s = s"
proof (cases s)
  case Nil
  then show ?thesis by (simp add: trim_def)
next
  case (Cons a list)
  assume "s = [] \<or> (\<not> isWhiteSpace (hd s) \<and> \<not> isWhiteSpace (last s))"
  with Cons have h: "\<not> isWhiteSpace a" and l: "\<not> isWhiteSpace (last s)" by simp_all
  have 1: "dropWhile isWhiteSpace s = s" using h Cons by simp
  obtain y ys where r: "rev s = y # ys" using Cons by (cases "rev s") simp_all
  then have y: "y = last s" using Cons by (metis hd_rev list.sel(1) list.distinct(1))
  have 2: "dropWhile isWhiteSpace (rev s) = rev s" unfolding r using y l by simp
  show ?thesis by (simp add: trim_def 1 2)
qed

section \<open>Parsing digit strings\<close>

text \<open>
  On a string of decimal digits \<^verbatim>\<open>BigInt\<close> returns its value, and \<^verbatim>\<open>Number\<close> is finite
  exactly when the value is below \<open>numberLimit\<close>.
\<close>

lemma digits_iff: "digits r s \<longleftrightarrow> s \<noteq> [] \<and> list_all (\<lambda>c. digitOf c < r) s"
  by (simp add: digits_def)

lemma decimal_hd_last:
  assumes "s \<noteq> []" "list_all (\<lambda>c. digitOf c < 10) s"
  shows "digitOf (hd s) < 10" "digitOf (last s) < 10"
  using assms by (simp_all add: list_all_iff)

lemma trim_digits:
  assumes "list_all (\<lambda>c. digitOf c < 10) s"
  shows "trim s = s"
proof (cases "s = []")
  case True
  then show ?thesis by (simp add: trim_def)
next
  case False
  with assms have "\<not> isWhiteSpace (hd s)" "\<not> isWhiteSpace (last s)"
    using decimal_hd_last decimal_digit_neq(4) by blast+
  then show ?thesis by (simp add: trim_id)
qed

lemma radixPrefix_digits:
  assumes "list_all (\<lambda>c. digitOf c < 10) s"
  shows "radixPrefix s = None"
proof (cases s)
  case Nil
  then show ?thesis by (simp add: radixPrefix_def)
next
  case (Cons c0 t)
  show ?thesis
  proof (cases t)
    case Nil
    with Cons show ?thesis by (simp add: radixPrefix_def)
  next
    case (Cons c1 rest)
    with assms \<open>s = c0 # t\<close> have "digitOf c1 < 10" by simp
    from decimal_digit_neq(5-10) [OF this] show ?thesis
      using \<open>s = c0 # t\<close> Cons by (simp add: radixPrefix_def)
  qed
qed

lemma radixPrefix_minus [simp]: "radixPrefix (CHR ''-'' # s) = None"
  by (simp add: radixPrefix_def split: list.splits)

lemma StringToBigInt_digits:
  assumes "s \<noteq> []" "list_all (\<lambda>c. digitOf c < 10) s"
  shows "StringToBigInt s = Some (radixValue 10 s)"
proof -
  obtain c ds where s: "s = c # ds" using assms(1) by (cases s) auto
  have c: "c \<noteq> CHR ''-''" "c \<noteq> CHR ''+''"
    using decimal_hd_last(1) [OF assms] decimal_digit_neq(1,3) s by auto
  show ?thesis
    using assms c s by (simp add: StringToBigInt_def trim_digits radixPrefix_digits digits_def)
qed

lemma StringToBigInt_minus_digits:
  assumes "s \<noteq> []" "list_all (\<lambda>c. digitOf c < 10) s"
  shows "StringToBigInt (CHR ''-'' # s) = Some (- radixValue 10 s)"
proof -
  have "\<not> isWhiteSpace (last s)"
    using decimal_hd_last(2) [OF assms] decimal_digit_neq(4) by blast
  moreover have "\<not> isWhiteSpace CHR ''-''" by (simp add: isWhiteSpace_def)
  ultimately have "trim (CHR ''-'' # s) = CHR ''-'' # s"
    using assms(1) by (intro trim_id) simp
  then show ?thesis
    using assms by (simp add: StringToBigInt_def digits_def)
qed

lemma numberLimit_pos: "0 < numberLimit"
proof -
  have "(2::int) ^ 970 < 2 ^ 1024" by (rule power_strict_increasing) simp_all
  then show ?thesis by (simp add: numberLimit_def)
qed

lemma takeWhile_digits:
  assumes "list_all (\<lambda>c. digitOf c < 10) s"
  shows "takeWhile isDecimalDigit s = s" "dropWhile isDecimalDigit s = []"
  using assms by (simp_all add: isDecimalDigit_def list_all_iff)

lemma Number_isFinite_digits:
  assumes "list_all (\<lambda>c. digitOf c < 10) s"
  shows "Number_isFinite s = (radixValue 10 s < numberLimit)"
proof (cases s)
  case Nil
  then show ?thesis using numberLimit_pos by (simp add: Number_isFinite_def trim_def)
next
  case (Cons c ds)
  then have ne: "s \<noteq> []" by simp
  have c: "c \<noteq> CHR ''-''" "c \<noteq> CHR ''+''" "c \<noteq> CHR ''I''"
    using decimal_hd_last(1) [OF ne assms] decimal_digit_neq(1,3,11) Cons by auto
  have lit: "StrUnsignedDecimalLiteral s = Some (radixValue 10 s, 0)"
    using ne by (simp add: StrUnsignedDecimalLiteral_def takeWhile_digits [OF assms] exponentPart_def)
  have inf: "s \<noteq> ''Infinity''" using c(3) Cons by auto
  show ?thesis
    using c inf lit trim_digits [OF assms] radixPrefix_digits [OF assms]
    by (simp add: Number_isFinite_def Cons)
qed

section \<open>The constructor on decimal strings\<close>

text \<open>
  On an optional minus sign, digits, and an optional point with digits, the constructor
  returns the signed value of the digits, the fraction cut or padded to 32 places, plus
  one when the 33rd fractional digit is 5 or more; it throws when \<^verbatim>\<open>Number\<close> reads a part
  as infinite.
\<close>

lemma digits_no_char:
  assumes "list_all (\<lambda>c. digitOf c < 10) s"
  shows "CHR ''-'' \<notin> set s" "CHR ''.'' \<notin> set s"
  using assms decimal_digit_neq(1,2) by (auto simp: list_all_iff)

lemma indexOf_absent: "c \<notin> set s \<Longrightarrow> indexOf s c = - 1"
  using indexOf_iff [of s c] by simp

lemma constructor_parts_decimal:
  assumes I: "list_all (\<lambda>c. digitOf c < 10) I" and F: "list_all (\<lambda>c. digitOf c < 10) F"
  shows "constructor_parts ((if neg then ''-'' else []) @ I @ (if F = [] then [] else CHR ''.'' # F))
         = (neg, I, F)"
proof -
  let ?hd = "(if neg then ''-'' else []) @ I"
  let ?s = "(if neg then ''-'' else []) @ I @ (if F = [] then [] else CHR ''.'' # F)"
  have nd: "CHR ''.'' \<notin> set ?hd" using digits_no_char(2) [OF I] by simp
  have parts: "splitOn CHR ''.'' ?s @ [[]] = (if F = [] then [?hd, []] else [?hd, F, []])"
  proof (cases "F = []")
    case True
    then show ?thesis using splitOn_absent [OF nd] by simp
  next
    case False
    have "splitOn CHR ''.'' (?hd @ CHR ''.'' # F) = ?hd # splitOn CHR ''.'' F"
      using nd by (rule splitOn_first)
    also have "splitOn CHR ''.'' F = [F]"
      using digits_no_char(2) [OF F] by (rule splitOn_absent)
    finally show ?thesis using False by simp
  qed
  have p0: "(splitOn CHR ''.'' ?s @ [[]]) ! 0 = ?hd" and p1: "(splitOn CHR ''.'' ?s @ [[]]) ! 1 = F"
    unfolding parts by simp_all
  have dF: "indexOf F CHR ''-'' = - 1"
    using digits_no_char(1) [OF F] by (rule indexOf_absent)
  have iI: "(indexOf ?hd CHR ''-'' \<noteq> - 1) = neg"
    using digits_no_char(1) [OF I] by (simp add: indexOf_iff)
  have rI: "neg \<Longrightarrow> replaceFirst ?hd CHR ''-'' [] = I" by simp
  have rI': "\<not> neg \<Longrightarrow> ?hd = I" by simp
  show ?thesis
    unfolding constructor_parts_def Let_def p0 p1 dF iI
    using rI rI' by (cases neg) simp_all
qed

lemma padded_fraction:
  assumes F: "list_all (\<lambda>c. digitOf c < 10) F"
  shows "list_all (\<lambda>c. digitOf c < 10) (take decimals_count (padEnd decimals_count CHR ''0'' F))"
    and "length (take decimals_count (padEnd decimals_count CHR ''0'' F)) = 32"
  using F by (auto simp: padEnd_def decimals_count_def list_all_iff dest: in_set_takeD)

lemma new_MidaDecimal_decimal:
  assumes I: "list_all (\<lambda>c. digitOf c < 10) I" and F: "list_all (\<lambda>c. digitOf c < 10) F"
  shows "new_MidaDecimal ((if neg then ''-'' else []) @ I @ (if F = [] then [] else CHR ''.'' # F)) =
    (if radixValue 10 I < numberLimit \<and> radixValue 10 F < numberLimit
     then Inr (MidaDecimal ((if neg then - 1 else 1) *
                  radixValue 10 (I @ take decimals_count (padEnd decimals_count CHR ''0'' F))
                + (if roundingDigit F then 1 else 0)))
     else Inl InvalidDecimal)"
proof -
  let ?D = "take decimals_count (padEnd decimals_count CHR ''0'' F)"
  have D: "list_all (\<lambda>c. digitOf c < 10) (I @ ?D)" "I @ ?D \<noteq> []"
    using padded_fraction [OF F] I by auto
  have big: "StringToBigInt ((if neg then ''-'' else []) @ I @ ?D)
      = Some ((if neg then - 1 else 1) * radixValue 10 (I @ ?D))"
    using StringToBigInt_digits [OF D(2,1)] StringToBigInt_minus_digits [OF D(2,1)]
    by (cases neg) simp_all
  show ?thesis
    unfolding new_MidaDecimal_def constructor_parts_decimal [OF I F]
    by (simp add: Number_isFinite_digits [OF I] Number_isFinite_digits [OF F] big
        BooleanToBigInt_def rounded_def del: append_assoc)
qed

section \<open>The form of the string conversion\<close>

text \<open>
  \<^verbatim>\<open>#toString\<close> pads the digits of the \<^verbatim>\<open>bigint\<close>, minus sign included, to 33
  characters, cuts off the last 32 and strips the zeros at their end. Whether the
  value is negative or not, and wherever the minus sign falls, the result is a minus sign
  for a negative value, the digits of the integer part, and the fraction without its
  final zeros after a point.
\<close>

lemma trailing_zeros_decomp:
  "\<exists>k. s = rev (dropWhile (\<lambda>c. c = CHR ''0'') (rev s)) @ replicate k CHR ''0''"
proof -
  let ?P = "\<lambda>c. c = CHR ''0''"
  have t: "takeWhile ?P (rev s) = replicate (length (takeWhile ?P (rev s))) CHR ''0''"
    by (rule replicate_eqI) (auto dest: set_takeWhileD)
  have "rev s = takeWhile ?P (rev s) @ dropWhile ?P (rev s)" by simp
  then have "s = rev (dropWhile ?P (rev s)) @ rev (takeWhile ?P (rev s))"
    by (metis rev_append rev_rev_ident)
  with t have "s = rev (dropWhile ?P (rev s)) @ replicate (length (takeWhile ?P (rev s))) CHR ''0''"
    by (metis rev_replicate)
  then show ?thesis ..
qed

lemma replaceTrailingZeros_plain:
  assumes "CHR ''.'' \<notin> set s"
  shows "replaceTrailingZeros s = rev (dropWhile (\<lambda>c. c = CHR ''0'') (rev s))"
proof -
  let ?b = "rev (dropWhile (\<lambda>c. c = CHR ''0'') (rev s))"
  obtain k where k: "s = ?b @ replicate k CHR ''0''" using trailing_zeros_decomp by blast
  have sub: "set ?b \<subseteq> set s" by (auto dest: set_dropWhileD)
  show ?thesis
  proof (cases "length ?b = length s")
    case True
    with k have "k = 0" by (metis add_cancel_right_right length_append length_replicate)
    with k have "?b = s" by simp
    then show ?thesis by (simp add: replaceTrailingZeros_def)
  next
    case False
    have "?b \<noteq> [] \<Longrightarrow> last ?b \<noteq> CHR ''.''"
      using sub assms by (metis last_in_set subsetD)
    with False show ?thesis by (auto simp: replaceTrailingZeros_def Let_def)
  qed
qed

lemma strip_keeps_prefix:
  assumes "y \<noteq> CHR ''0''"
  shows "rev (dropWhile (\<lambda>c. c = CHR ''0'') (rev (xs @ y # ys)))
       = xs @ y # rev (dropWhile (\<lambda>c. c = CHR ''0'') (rev ys))"
proof -
  have "dropWhile (\<lambda>c. c = CHR ''0'') (rev ys @ y # rev xs)
      = dropWhile (\<lambda>c. c = CHR ''0'') (rev ys) @ y # rev xs"
    using assms by (induction "rev ys" arbitrary: ys) (auto simp: dropWhile_append3 dropWhile_append)
  then show ?thesis by simp
qed

lemma pad_back:
  assumes "X = B @ replicate k CHR ''0''" and "length X = 32"
  shows "take decimals_count (padEnd decimals_count CHR ''0'' B) = X"
  using assms by (auto simp: padEnd_def decimals_count_def)

lemma replaceTrailingDot_fraction:
  assumes "list_all (\<lambda>c. digitOf c < 10) F"
  shows "replaceTrailingDot (I @ ''.'' @ F) = I @ (if F = [] then [] else CHR ''.'' # F)"
proof (cases "F = []")
  case True
  then show ?thesis by (simp add: replaceTrailingDot_def butlast_append)
next
  case False
  then have "last F \<in> set F" by simp
  with assms have "last F \<noteq> CHR ''.''" using decimal_digit_neq(2) by (auto simp: list_all_iff)
  with False show ?thesis by (simp add: replaceTrailingDot_def)
qed

lemma strip_digits:
  assumes "list_all (\<lambda>c. digitOf c < 10) s"
  shows "list_all (\<lambda>c. digitOf c < 10) (rev (dropWhile (\<lambda>c. c = CHR ''0'') (rev s)))"
    and "length (rev (dropWhile (\<lambda>c. c = CHR ''0'') (rev s))) \<le> length s"
  using assms length_dropWhile_le [of "\<lambda>c. c = CHR ''0''" "rev s"]
  by (auto simp: list_all_iff dest: set_dropWhileD)

lemma toString_nonneg:
  assumes "0 \<le> v"
  shows "\<exists>I F D. MidaDecimal_toString v = I @ (if F = [] then [] else CHR ''.'' # F)
           \<and> list_all (\<lambda>c. digitOf c < 10) I \<and> list_all (\<lambda>c. digitOf c < 10) F
           \<and> length F \<le> 32 \<and> take decimals_count (padEnd decimals_count CHR ''0'' F) = D
           \<and> length D = 32 \<and> radixValue 10 (I @ D) = v"
proof -
  define desc where "desc = padStart (decimals_count + 1) CHR ''0'' (BigInt_toString v)"
  define I where "I = take (length desc - decimals_count) desc"
  define D where "D = drop (length desc - decimals_count) desc"
  define F where "F = rev (dropWhile (\<lambda>c. c = CHR ''0'') (rev D))"
  note ds = intDigits_props [OF assms]
  have desc: "desc = replicate (33 - length (intDigits v)) CHR ''0'' @ intDigits v"
    using assms by (simp add: desc_def padStart_def BigInt_toString_def decimals_count_def)
  have dig: "list_all (\<lambda>c. digitOf c < 10) desc"
    using ds by (auto simp: desc list_all_iff)
  have len: "33 \<le> length desc" by (simp add: desc)
  have val: "radixValue 10 desc = v"
    using ds by (simp add: desc radixValue_append)
  have ID: "desc = I @ D" by (simp add: I_def D_def)
  have D32: "length D = 32" using len by (simp add: D_def decimals_count_def)
  have digI: "list_all (\<lambda>c. digitOf c < 10) I" and digD: "list_all (\<lambda>c. digitOf c < 10) D"
    using dig unfolding ID by simp_all
  have digF: "list_all (\<lambda>c. digitOf c < 10) F" and lenF: "length F \<le> 32"
    using strip_digits [OF digD] D32 by (simp_all add: F_def)
  have rz: "replaceTrailingZeros D = F"
    unfolding F_def using digits_no_char(2) [OF digD] by (rule replaceTrailingZeros_plain)
  have mF: "indexOf F CHR ''-'' = - 1" and mI: "indexOf I CHR ''-'' = - 1"
    using digits_no_char(1) [OF digF] digits_no_char(1) [OF digI] by (simp_all add: indexOf_absent)
  have "MidaDecimal_toString v = replaceTrailingDot (I @ ''.'' @ F)"
    unfolding MidaDecimal_toString_def Let_def desc_def [symmetric]
    unfolding I_def [symmetric] D_def [symmetric] rz mF mI by simp
  then have 1: "MidaDecimal_toString v = I @ (if F = [] then [] else CHR ''.'' # F)"
    using replaceTrailingDot_fraction [OF digF] by simp
  obtain k where "D = F @ replicate k CHR ''0''"
    using trailing_zeros_decomp [of D] unfolding F_def by blast
  then have 2: "take decimals_count (padEnd decimals_count CHR ''0'' F) = D"
    using D32 by (rule pad_back)
  from 1 2 digI digF lenF D32 val show ?thesis unfolding ID by blast
qed

lemma toString_neg_long:
  assumes "v < 0" and long: "32 \<le> length (intDigits (- v))"
  shows "\<exists>I F D. MidaDecimal_toString v = ''-'' @ I @ (if F = [] then [] else CHR ''.'' # F)
           \<and> list_all (\<lambda>c. digitOf c < 10) I \<and> list_all (\<lambda>c. digitOf c < 10) F
           \<and> length F \<le> 32 \<and> take decimals_count (padEnd decimals_count CHR ''0'' F) = D
           \<and> length D = 32 \<and> radixValue 10 (I @ D) = - v"
proof -
  define ds where "ds = intDigits (- v)"
  define desc where "desc = padStart (decimals_count + 1) CHR ''0'' (BigInt_toString v)"
  define I where "I = take (length ds - 32) ds"
  define D where "D = drop (length ds - 32) ds"
  define F where "F = rev (dropWhile (\<lambda>c. c = CHR ''0'') (rev D))"
  have "0 \<le> - v" using assms by simp
  note dsp = intDigits_props [OF this, folded ds_def]
  have n: "32 \<le> length ds" using long by (simp add: ds_def)
  have desc: "desc = CHR ''-'' # ds"
    using assms n by (simp add: desc_def padStart_def BigInt_toString_def decimals_count_def ds_def)
  have le: "length desc - decimals_count = Suc (length ds - 32)"
    using n by (simp add: desc decimals_count_def)
  have tk: "take (length desc - decimals_count) desc = CHR ''-'' # I"
    and dr: "drop (length desc - decimals_count) desc = D"
    unfolding le by (simp_all add: desc I_def D_def)
  have ID: "ds = I @ D" by (simp add: I_def D_def)
  have D32: "length D = 32" using n by (simp add: D_def)
  have digI: "list_all (\<lambda>c. digitOf c < 10) I" and digD: "list_all (\<lambda>c. digitOf c < 10) D"
    using dsp unfolding ID by simp_all
  have digF: "list_all (\<lambda>c. digitOf c < 10) F" and lenF: "length F \<le> 32"
    using strip_digits [OF digD] D32 by (simp_all add: F_def)
  have rz: "replaceTrailingZeros D = F"
    unfolding F_def using digits_no_char(2) [OF digD] by (rule replaceTrailingZeros_plain)
  have mF: "indexOf F CHR ''-'' = - 1"
    using digits_no_char(1) [OF digF] by (simp add: indexOf_absent)
  have mI: "indexOf (CHR ''-'' # I) CHR ''-'' = 0" by simp
  have "MidaDecimal_toString v = ''-'' @ replaceTrailingDot (I @ ''.'' @ F)"
    unfolding MidaDecimal_toString_def Let_def desc_def [symmetric]
    unfolding tk dr rz mF mI by simp
  then have 1: "MidaDecimal_toString v = ''-'' @ I @ (if F = [] then [] else CHR ''.'' # F)"
    using replaceTrailingDot_fraction [OF digF] by simp
  obtain k where "D = F @ replicate k CHR ''0''"
    using trailing_zeros_decomp [of D] unfolding F_def by blast
  then have 2: "take decimals_count (padEnd decimals_count CHR ''0'' F) = D"
    using D32 by (rule pad_back)
  have val: "radixValue 10 (I @ D) = - v" using dsp ID by simp
  from 1 2 digI digF lenF D32 val show ?thesis by blast
qed

lemma toString_neg_short:
  assumes "v < 0" and short: "length (intDigits (- v)) < 32"
  shows "\<exists>I F D. MidaDecimal_toString v = ''-'' @ I @ (if F = [] then [] else CHR ''.'' # F)
           \<and> list_all (\<lambda>c. digitOf c < 10) I \<and> list_all (\<lambda>c. digitOf c < 10) F
           \<and> length F \<le> 32 \<and> take decimals_count (padEnd decimals_count CHR ''0'' F) = D
           \<and> length D = 32 \<and> radixValue 10 (I @ D) = - v"
proof -
  define ds where "ds = intDigits (- v)"
  define desc where "desc = padStart (decimals_count + 1) CHR ''0'' (BigInt_toString v)"
  define z where "z = replicate (31 - length ds) CHR ''0''"
  define S where "S = rev (dropWhile (\<lambda>c. c = CHR ''0'') (rev ds))"
  define F where "F = z @ CHR ''0'' # S"
  define D where "D = z @ CHR ''0'' # ds"
  have "0 \<le> - v" using assms by simp
  note dsp = intDigits_props [OF this, folded ds_def]
  have n: "length ds < 32" using short by (simp add: ds_def)
  have "replicate (32 - length ds) CHR ''0'' = CHR ''0'' # z"
    using n by (simp add: z_def Suc_diff_Suc flip: replicate_Suc)
  then have desc: "desc = CHR ''0'' # z @ CHR ''-'' # ds"
    using assms n by (simp add: desc_def padStart_def BigInt_toString_def decimals_count_def ds_def)
  have lz: "length z = 31 - length ds" by (simp add: z_def)
  have le: "length desc - decimals_count = Suc 0"
    using n by (simp add: desc decimals_count_def lz)
  have tk: "take (length desc - decimals_count) desc = ''0''"
    and dr: "drop (length desc - decimals_count) desc = z @ CHR ''-'' # ds"
    unfolding le by (simp_all add: desc)
  have digz: "list_all (\<lambda>c. digitOf c < 10) z" by (simp add: z_def list_all_iff)
  have digS: "list_all (\<lambda>c. digitOf c < 10) S" using strip_digits(1) dsp by (simp add: S_def)
  have lenS: "length S \<le> length ds" using strip_digits(2) dsp by (simp add: S_def)
  have digF: "list_all (\<lambda>c. digitOf c < 10) F" using digz digS by (simp add: F_def)
  have lenF: "length F \<le> 32" using lenS n by (simp add: F_def lz)
  have digD: "list_all (\<lambda>c. digitOf c < 10) D" using digz dsp by (simp add: D_def)
  have D32: "length D = 32" using n by (simp add: D_def lz)
  have nodot: "CHR ''.'' \<notin> set (z @ CHR ''-'' # ds)"
    using digits_no_char(2) [OF digz] digits_no_char(2) dsp by simp
  have "replaceTrailingZeros (z @ CHR ''-'' # ds)
      = rev (dropWhile (\<lambda>c. c = CHR ''0'') (rev (z @ CHR ''-'' # ds)))"
    using nodot by (rule replaceTrailingZeros_plain)
  also have "\<dots> = z @ CHR ''-'' # S"
    unfolding S_def by (rule strip_keeps_prefix) simp
  finally have rz: "replaceTrailingZeros (z @ CHR ''-'' # ds) = z @ CHR ''-'' # S" .
  have mD: "indexOf (z @ CHR ''-'' # S) CHR ''-'' \<noteq> - 1" by (simp add: indexOf_iff)
  have rD: "replaceFirst (z @ CHR ''-'' # S) CHR ''-'' ''0'' = F"
    using replaceFirst_first [OF digits_no_char(1) [OF digz], of S "''0''"] by (simp add: F_def)
  have mI: "indexOf ''0'' CHR ''-'' = - 1" by simp
  have "MidaDecimal_toString v = ''-'' @ replaceTrailingDot (''0'' @ ''.'' @ F)"
    unfolding MidaDecimal_toString_def Let_def desc_def [symmetric]
    unfolding tk dr rz using mD by (simp only: rD mI) simp
  then have 1: "MidaDecimal_toString v = ''-'' @ ''0'' @ (if F = [] then [] else CHR ''.'' # F)"
    using replaceTrailingDot_fraction [OF digF, of "''0''"] by simp
  obtain k where "ds = S @ replicate k CHR ''0''"
    using trailing_zeros_decomp [of ds] unfolding S_def by blast
  then have "D = F @ replicate k CHR ''0''" by (simp add: D_def F_def)
  then have 2: "take decimals_count (padEnd decimals_count CHR ''0'' F) = D"
    using D32 by (rule pad_back)
  have "z @ [CHR ''0''] = CHR ''0'' # z" by (simp add: z_def replicate_append_same)
  then have "z @ CHR ''0'' # ds = CHR ''0'' # z @ ds"
    by (metis append_Cons append_assoc append_Nil)
  then have "''0'' @ D = replicate (Suc (Suc (length z))) CHR ''0'' @ ds"
    by (simp add: D_def z_def)
  then have "radixValue 10 (''0'' @ D) = radixValue 10 (replicate (Suc (Suc (length z))) CHR ''0'' @ ds)"
    by (simp only:)
  then have val: "radixValue 10 (''0'' @ D) = - v"
    using dsp by (simp only: radixValue_append radixValue_zeros)
  have dig0: "list_all (\<lambda>c. digitOf c < 10) ''0''" by simp
  from 1 2 dig0 digF lenF D32 val show ?thesis by blast
qed

lemma toString_form:
  "\<exists>I F D. MidaDecimal_toString v = (if v < 0 then ''-'' else []) @ I @ (if F = [] then [] else CHR ''.'' # F)
           \<and> list_all (\<lambda>c. digitOf c < 10) I \<and> list_all (\<lambda>c. digitOf c < 10) F
           \<and> length F \<le> 32 \<and> take decimals_count (padEnd decimals_count CHR ''0'' F) = D
           \<and> length D = 32 \<and> radixValue 10 (I @ D) = \<bar>v\<bar>"
proof (cases "0 \<le> v")
  case True
  then show ?thesis using toString_nonneg [OF True] by simp
next
  case False
  then have neg: "v < 0" by simp
  show ?thesis
  proof (cases "32 \<le> length (intDigits (- v))")
    case True
    from toString_neg_long [OF neg True] neg show ?thesis by simp
  next
    case False
    then have "length (intDigits (- v)) < 32" by simp
    from toString_neg_short [OF neg this] neg show ?thesis by simp
  qed
qed

section \<open>Construction from the string conversion\<close>

text \<open>
  The constructor gives the value back on the output of \<^verbatim>\<open>#toString\<close>, unless the
  integer part is too large for \<^verbatim>\<open>Number\<close>.
\<close>

lemma shift_below_limit: "(10::int) ^ 32 < numberLimit"
  by (simp add: numberLimit_def)

lemma roundingDigit_short: "length F \<le> 32 \<Longrightarrow> \<not> roundingDigit F"
  by (simp add: roundingDigit_def decimals_count_def)

lemma fraction_finite:
  assumes "list_all (\<lambda>c. digitOf c < 10) F" "length F \<le> 32"
  shows "radixValue 10 F < numberLimit"
proof -
  have "radixValue 10 F < 10 ^ length F" using radixValue_bounds [OF assms(1)] by simp
  also have "(10::int) ^ length F \<le> 10 ^ 32" using assms(2) by (intro power_increasing) simp_all
  finally show ?thesis using shift_below_limit by simp
qed

lemma integer_part:
  assumes "list_all (\<lambda>c. digitOf c < 10) D" "length D = 32"
  shows "radixValue 10 (I @ D) div 10 ^ 32 = radixValue 10 I"
proof -
  have b: "0 \<le> radixValue 10 D" "radixValue 10 D < 10 ^ 32"
    using radixValue_bounds [OF assms(1)] assms(2) by simp_all
  have "radixValue 10 (I @ D) = 10 ^ 32 * radixValue 10 I + radixValue 10 D"
    using assms(2) by (simp add: radixValue_append)
  then show ?thesis using b by (intro int_div_pos_eq) 
qed

lemma new_MidaDecimal_toString_div:
  "new_MidaDecimal (MidaDecimal_toString v) =
     (if \<bar>v\<bar> div 10 ^ 32 < numberLimit then Inr (MidaDecimal v) else Inl InvalidDecimal)"
proof -
  obtain I F D where
    s: "MidaDecimal_toString v = (if v < 0 then ''-'' else []) @ I @ (if F = [] then [] else CHR ''.'' # F)"
    and I: "list_all (\<lambda>c. digitOf c < 10) I" and F: "list_all (\<lambda>c. digitOf c < 10) F"
    and lenF: "length F \<le> 32"
    and D: "take decimals_count (padEnd decimals_count CHR ''0'' F) = D" "length D = 32"
    and val: "radixValue 10 (I @ D) = \<bar>v\<bar>"
    using toString_form [of v] by blast
  have digD: "list_all (\<lambda>c. digitOf c < 10) D" using padded_fraction(1) [OF F] D(1) by simp
  have ip: "radixValue 10 I = \<bar>v\<bar> div 10 ^ 32"
    using integer_part [OF digD D(2), of I] val by simp
  have sg: "(if v < 0 then - 1 else 1) * \<bar>v\<bar> = v" by simp
  show ?thesis
    unfolding s new_MidaDecimal_decimal [OF I F, of "v < 0"] D(1) val sg
    using fraction_finite [OF F lenF] roundingDigit_short [OF lenF] ip by simp
qed

lemma int_div_less_iff:
  fixes a K L :: int
  assumes "0 < K"
  shows "a div K < L \<longleftrightarrow> a < L * K"
proof
  have e: "K * (a div K) + a mod K = a" by simp
  have m: "0 \<le> a mod K" "a mod K < K" using assms by simp_all
  {
    assume "a div K < L"
    then have "a div K + 1 \<le> L" by simp
    then have "K * (a div K + 1) \<le> K * L" using assms by (intro mult_left_mono) simp_all
    then have "K * (a div K) + K \<le> L * K" by (simp add: algebra_simps)
    with e m show "a < L * K" by linarith
  }
  {
    assume lt: "a < L * K"
    show "a div K < L"
    proof (rule ccontr)
      assume "\<not> a div K < L"
      then have "L \<le> a div K" by simp
      then have "K * L \<le> K * (a div K)" using assms by (intro mult_left_mono) simp_all
      moreover have "L * K = K * L" by simp
      ultimately show False using e m lt by linarith
    qed
  }
qed

lemma representable_iff: "\<bar>v\<bar> div 10 ^ 32 < numberLimit \<longleftrightarrow> \<bar>v\<bar> < numberLimit * shift"
  unfolding shift_def by (rule int_div_less_iff) simp

lemma new_MidaDecimal_toString:
  "new_MidaDecimal (MidaDecimal_toString v) =
     (if \<bar>v\<bar> < numberLimit * shift then Inr (MidaDecimal v) else Inl InvalidDecimal)"
  unfolding new_MidaDecimal_toString_div representable_iff ..

lemma decimal_FromDecimal:
  "decimal (FromDecimal d) =
     (if \<bar>val d\<bar> < numberLimit * shift then Inr d else Inl InvalidDecimal)"
  by (simp add: decimal_def toString_def new_MidaDecimal_toString)

lemma decimal_result:
  "decimal (FromString (MidaDecimal_toString v)) =
     (if \<bar>v\<bar> < numberLimit * shift then Inr (MidaDecimal v) else Inl InvalidDecimal)"
  by (simp add: decimal_def new_MidaDecimal_toString)

lemma add_subtract_equals:
  assumes a: "\<bar>val a\<bar> < numberLimit * shift" and b: "\<bar>val b\<bar> < numberLimit * shift"
    and ab: "\<bar>val a + val b\<bar> < numberLimit * shift"
  shows "add a (FromDecimal b) = Inr (MidaDecimal (val a + val b)) \<and>
         subtract (MidaDecimal (val a + val b)) (FromDecimal b) = Inr a \<and>
         equals a (FromDecimal a) = Inr True"
  using a b ab by (simp add: add_def subtract_def equals_def decimal_FromDecimal decimal_result)

lemma radixValue_one_zeros: "radixValue 10 (CHR ''1'' # replicate 308 CHR ''0'') = 10 ^ 308"
proof -
  have "radixValue 10 ([CHR ''1''] @ replicate 308 CHR ''0'')
      = radixValue 10 [CHR ''1''] * 10 ^ 308 + radixValue 10 (replicate 308 CHR ''0'')"
    using radixValue_append [of 10 "[CHR ''1'']" "replicate 308 CHR ''0''"]
    by (simp only: length_replicate of_nat_numeral)
  moreover have "radixValue 10 [CHR ''1''] = 1" by (simp add: radixValue_def digitOf_def)
  ultimately show ?thesis by (simp only: radixValue_zeros append_Cons append_Nil)
qed

lemma new_MidaDecimal_1e308:
  "new_MidaDecimal (CHR ''1'' # replicate 308 CHR ''0'') = Inr (MidaDecimal (10 ^ 340))"
proof -
  let ?I = "CHR ''1'' # replicate 308 CHR ''0''"
  have I: "list_all (\<lambda>c. digitOf c < 10) ?I" by (simp add: list_all_iff digitOf_def)
  have F: "list_all (\<lambda>c. digitOf c < 10) []" by simp
  have D: "take decimals_count (padEnd decimals_count CHR ''0'' []) = replicate 32 CHR ''0''"
    by (simp add: padEnd_def decimals_count_def)
  have v: "radixValue 10 (?I @ replicate 32 CHR ''0'') = 10 ^ 340"
    using radixValue_append [of 10 ?I "replicate 32 CHR ''0''"] radixValue_one_zeros
    by (simp flip: power_add)
  have lim: "(10::int) ^ 308 < numberLimit" by (simp add: numberLimit_def)
  have r: "\<not> roundingDigit []" by (simp add: roundingDigit_def)
  show ?thesis
    using new_MidaDecimal_decimal [OF I F, of False] lim numberLimit_pos r
    unfolding D v radixValue_one_zeros by simp
qed

lemma add_1e308_overflow:
  "add (MidaDecimal (10 ^ 340)) (FromDecimal (MidaDecimal (10 ^ 340))) = Inl InvalidDecimal"
  by (simp add: add_def decimal_FromDecimal decimal_result numberLimit_def shift_def)

section \<open>The largest integer part\<close>

text \<open>
  The constructor accepts the integer part \<open>2^1024 - 2^970 - 1\<close>; with 32 nines and a
  5 after the point the rounding carries into it.
\<close>

lemma largest_integer_part:
  "list_all (\<lambda>c. digitOf c < 10) ''179769313486231580793728971405303415079934132710037826936173778980444968292764750946649017977587207096330286416692887910946555547851940402630657488671505820681908902000708383676273854845817711531764475730270069855571366959622842914819860834936475292719074168444365510704342711559699508093042880177904174497791''"
  "radixValue 10 ''179769313486231580793728971405303415079934132710037826936173778980444968292764750946649017977587207096330286416692887910946555547851940402630657488671505820681908902000708383676273854845817711531764475730270069855571366959622842914819860834936475292719074168444365510704342711559699508093042880177904174497791'' = numberLimit - 1"
  by (simp_all add: radixValue_def digitOf_def numberLimit_def)

lemma carry_fraction:
  "list_all (\<lambda>c. digitOf c < 10) ''999999999999999999999999999999995''"
  "radixValue 10 ''999999999999999999999999999999995'' = 10 ^ 33 - 5"
  "take decimals_count (padEnd decimals_count CHR ''0'' ''999999999999999999999999999999995'') = ''99999999999999999999999999999999''"
  "radixValue 10 ''99999999999999999999999999999999'' = 10 ^ 32 - 1"
  "roundingDigit ''999999999999999999999999999999995''"
  by (simp_all add: radixValue_def digitOf_def padEnd_def decimals_count_def roundingDigit_def
      isDecimalDigit_def)

lemma new_at_limit:
  "new_MidaDecimal ''179769313486231580793728971405303415079934132710037826936173778980444968292764750946649017977587207096330286416692887910946555547851940402630657488671505820681908902000708383676273854845817711531764475730270069855571366959622842914819860834936475292719074168444365510704342711559699508093042880177904174497791.999999999999999999999999999999995'' = Inr (MidaDecimal (numberLimit * shift))"
proof -
  let ?I = "''179769313486231580793728971405303415079934132710037826936173778980444968292764750946649017977587207096330286416692887910946555547851940402630657488671505820681908902000708383676273854845817711531764475730270069855571366959622842914819860834936475292719074168444365510704342711559699508093042880177904174497791''" and ?F = "''999999999999999999999999999999995''"
  have v: "radixValue 10 (?I @ ''99999999999999999999999999999999'') = (numberLimit - 1) * 10 ^ 32 + (10 ^ 32 - 1)"
    by (simp only: radixValue_append largest_integer_part(2) carry_fraction(4)) simp
  have lim: "(10::int) ^ 33 - 5 < numberLimit" by (simp add: numberLimit_def)
  have s: "''179769313486231580793728971405303415079934132710037826936173778980444968292764750946649017977587207096330286416692887910946555547851940402630657488671505820681908902000708383676273854845817711531764475730270069855571366959622842914819860834936475292719074168444365510704342711559699508093042880177904174497791.999999999999999999999999999999995'' = (if False then ''-'' else []) @ ?I @ (if ?F = [] then [] else CHR ''.'' # ?F)"
    by simp
  have "new_MidaDecimal ''179769313486231580793728971405303415079934132710037826936173778980444968292764750946649017977587207096330286416692887910946555547851940402630657488671505820681908902000708383676273854845817711531764475730270069855571366959622842914819860834936475292719074168444365510704342711559699508093042880177904174497791.999999999999999999999999999999995'' =
      Inr (MidaDecimal ((numberLimit - 1) * 10 ^ 32 + (10 ^ 32 - 1) + 1))"
    unfolding s new_MidaDecimal_decimal [OF largest_integer_part(1) carry_fraction(1), of False]
    unfolding carry_fraction(3) v largest_integer_part(2) carry_fraction(2)
    using lim carry_fraction(5) by simp
  also have "(numberLimit - 1) * 10 ^ 32 + (10 ^ 32 - 1) + 1 = numberLimit * shift"
    by (simp add: shift_def algebra_simps)
  finally show ?thesis .
qed

lemma at_limit_rejected:
  "decimal (FromDecimal (MidaDecimal (numberLimit * shift))) = Inl InvalidDecimal"
  using numberLimit_pos by (simp add: decimal_FromDecimal shift_def)

section \<open>Negative decimals\<close>

text \<open>
  A negative value returned by the constructor comes from a minus sign and decimal
  digits, of which the integer part is finite for \<^verbatim>\<open>Number\<close>: its magnitude is within
  the bound of the round trip.
\<close>

lemma radixValue_nonneg: "0 \<le> radixValue r s"
  by (induction s rule: rev_induct) (simp_all add: radixValue_snoc)

lemma radixValue_not_neg [simp]: "\<not> radixValue r s < 0"
  using radixValue_nonneg [of r s] by simp

lemma StringToBigInt_negative:
  assumes "StringToBigInt t = Some n" "n < 0"
  shows "\<exists>ds. trim t = CHR ''-'' # ds \<and> ds \<noteq> [] \<and> list_all (\<lambda>c. digitOf c < 10) ds
            \<and> n = - radixValue 10 ds"
  using assms
  by (auto simp: StringToBigInt_def Let_def digits_def
      split: if_splits option.splits list.splits prod.splits)

lemma dropWhile_snoc_stop: "\<not> P y \<Longrightarrow> dropWhile P (xs @ [y]) = dropWhile P xs @ [y]"
  by (induction xs) auto

lemma trim_minus:
  "trim (CHR ''-'' # u) = CHR ''-'' # rev (dropWhile isWhiteSpace (rev u))"
proof -
  have m: "\<not> isWhiteSpace CHR ''-''" by (simp add: isWhiteSpace_def)
  then show ?thesis by (simp add: trim_def dropWhile_snoc_stop)
qed

lemma trailing_space_decomp:
  "\<exists>w. u = rev (dropWhile isWhiteSpace (rev u)) @ w \<and> list_all isWhiteSpace w"
proof -
  have "rev u = takeWhile isWhiteSpace (rev u) @ dropWhile isWhiteSpace (rev u)" by simp
  then have "u = rev (dropWhile isWhiteSpace (rev u)) @ rev (takeWhile isWhiteSpace (rev u))"
    by (metis rev_append rev_rev_ident)
  moreover have "list_all isWhiteSpace (rev (takeWhile isWhiteSpace (rev u)))"
    by (auto simp: list_all_iff dest: set_takeWhileD)
  ultimately show ?thesis by blast
qed

lemma trim_digits_space:
  assumes ne: "ds \<noteq> []" and dig: "list_all (\<lambda>c. digitOf c < 10) ds"
    and ws: "list_all isWhiteSpace w"
  shows "trim (ds @ w) = ds"
proof -
  have h: "\<not> isWhiteSpace (hd ds)" and l: "\<not> isWhiteSpace (last ds)"
    using decimal_hd_last [OF ne dig] decimal_digit_neq(4) by blast+
  have 1: "dropWhile isWhiteSpace (ds @ w) = ds @ w"
    using ne h by (cases ds) simp_all
  have "dropWhile isWhiteSpace (rev w @ rev ds) = dropWhile isWhiteSpace (rev ds)"
    using ws by (intro dropWhile_append2) (simp add: list_all_iff)
  also have "\<dots> = rev ds"
    using ne l by (cases ds rule: rev_cases) simp_all
  finally show ?thesis by (simp add: trim_def 1)
qed

lemma Number_isFinite_trim: "trim a = trim b \<Longrightarrow> Number_isFinite a = Number_isFinite b"
  by (simp add: Number_isFinite_def)

lemma negative_in_range:
  assumes fin: "Number_isFinite ints"
    and big: "StringToBigInt (CHR ''-'' # ints @ D) = Some n" and neg: "n < 0"
    and len: "length D = 32"
  shows "- n < numberLimit * 10 ^ 32"
proof -
  define ds where "ds = rev (dropWhile isWhiteSpace (rev (ints @ D)))"
  obtain ds' where "trim (CHR ''-'' # ints @ D) = CHR ''-'' # ds'" "ds' \<noteq> []"
    "list_all (\<lambda>c. digitOf c < 10) ds'" "n = - radixValue 10 ds'"
    using StringToBigInt_negative [OF big neg] by blast
  then have ne: "ds \<noteq> []" and dig: "list_all (\<lambda>c. digitOf c < 10) ds"
    and n: "n = - radixValue 10 ds"
    unfolding trim_minus ds_def by simp_all
  obtain w where u: "ints @ D = ds @ w" and ws: "list_all isWhiteSpace w"
    using trailing_space_decomp [of "ints @ D"] unfolding ds_def by blast
  have le1: "(1::int) \<le> 10 ^ 32" by simp
  have "radixValue 10 ds < numberLimit * 10 ^ 32"
  proof (cases "length ints \<le> length ds")
    case True
    have "ints = take (length ints) (ds @ w)" using u by (metis append_eq_conv_conj)
    then have i: "ints = take (length ints) ds" using True by simp
    define ds2 where "ds2 = drop (length ints) ds"
    have split: "ds = ints @ ds2" using i unfolding ds2_def by (metis append_take_drop_id)
    have "length ds \<le> length ints + 32"
      using u len by (metis length_append le_add1)
    then have l2: "length ds2 \<le> 32" by (simp add: ds2_def)
    have digi: "list_all (\<lambda>c. digitOf c < 10) ints" and dig2: "list_all (\<lambda>c. digitOf c < 10) ds2"
      using dig unfolding split by simp_all
    have fi: "radixValue 10 ints + 1 \<le> numberLimit"
      using fin Number_isFinite_digits [OF digi] by simp
    have b2: "radixValue 10 ds2 < 10 ^ length ds2"
      using radixValue_bounds [OF dig2] by simp
    have "radixValue 10 ds = radixValue 10 ints * 10 ^ length ds2 + radixValue 10 ds2"
      unfolding split by (simp add: radixValue_append)
    also have "\<dots> < (radixValue 10 ints + 1) * 10 ^ length ds2"
      using b2 by (simp add: algebra_simps)
    also have "\<dots> \<le> numberLimit * 10 ^ length ds2"
      using fi by (intro mult_right_mono) simp_all
    also have "\<dots> \<le> numberLimit * 10 ^ 32"
      using l2 numberLimit_pos by (intro mult_left_mono power_increasing) simp_all
    finally show ?thesis .
  next
    case False
    then have lt: "length ds < length ints" by simp
    have "ints = take (length ints) (ds @ w)" using u by (metis append_eq_conv_conj)
    then have i: "ints = ds @ take (length ints - length ds) w" using lt by simp
    have "list_all isWhiteSpace (take (length ints - length ds) w)"
      using ws by (auto simp: list_all_iff dest: in_set_takeD)
    then have "trim ints = ds" using trim_digits_space [OF ne dig] i by metis
    then have "trim ints = trim ds" using trim_digits [OF dig] by simp
    then have "Number_isFinite ds" using fin Number_isFinite_trim by blast
    then have "radixValue 10 ds < numberLimit" using Number_isFinite_digits [OF dig] by simp
    also have "numberLimit \<le> numberLimit * 10 ^ 32"
      using numberLimit_pos mult_left_mono [OF le1, of numberLimit] by simp
    finally show ?thesis .
  qed
  then show ?thesis using n by simp
qed

lemma constructor_parts_positive:
  assumes "constructor_parts s = (False, ints, decs)"
  shows "CHR ''-'' \<notin> set ints" "CHR ''-'' \<notin> set decs"
  using assms by (auto simp: constructor_parts_def Let_def indexOf_iff split: if_splits)

lemma set_trim: "set (trim t) \<subseteq> set t"
  by (auto simp: trim_def dest!: set_dropWhileD)

lemma constructed_negative:
  assumes new: "new_MidaDecimal s = Inr x" and x: "val x < 0"
  shows "- val x < numberLimit * shift"
proof -
  obtain neg ints decs where parts: "constructor_parts s = (neg, ints, decs)"
    by (cases "constructor_parts s") auto
  define D where "D = take decimals_count (padEnd decimals_count CHR ''0'' decs)"
  define b where "b = BooleanToBigInt (rounded \<and> roundingDigit decs)"
  have b: "0 \<le> b" by (simp add: b_def BooleanToBigInt_def)
  from new obtain n where fin: "Number_isFinite ints"
    and big: "StringToBigInt ((if neg then ''-'' else []) @ ints @ D) = Some n"
    and v: "val x = n + b"
    unfolding new_MidaDecimal_def parts D_def b_def
    by (auto split: if_splits option.splits)
  have n: "n < 0" using v b x by simp
  have len: "length D = 32" by (simp add: D_def padEnd_def decimals_count_def)
  have neg: neg
  proof (rule ccontr)
    assume "\<not> neg"
    then have p: "constructor_parts s = (False, ints, decs)" using parts by simp
    have "set D \<subseteq> set decs \<union> {CHR ''0''}"
      by (auto simp: D_def padEnd_def dest!: in_set_takeD)
    then have "CHR ''-'' \<notin> set (ints @ D)"
      using constructor_parts_positive [OF p] by auto
    moreover obtain ds where "trim (ints @ D) = CHR ''-'' # ds"
      using StringToBigInt_negative [OF big n] \<open>\<not> neg\<close> by auto
    then have "CHR ''-'' \<in> set (ints @ D)" using set_trim [of "ints @ D"] by auto
    ultimately show False by simp
  qed
  have "- n < numberLimit * 10 ^ 32"
    using negative_in_range [OF fin _ n len] big neg by simp
  then show ?thesis using v b by (simp add: shift_def)
qed

section \<open>min and max\<close>

text \<open>
  Whatever the list, the loops compare its first element with itself and keep it.
\<close>

lemma min_loop_first:
  assumes "\<bar>val (operands ! 0)\<bar> < numberLimit * shift" and "m = operands ! 0"
  shows "min_loop operands i m = Inr m"
  using assms
proof (induction operands i m rule: min_loop.induct)
  case (1 operands i m)
  have lt: "lessThan_decimal (operands ! 0) (FromDecimal m) = Inr False"
    using 1(2,3) by (simp add: lessThan_decimal_def decimal_FromDecimal)
  show ?case
  proof (cases "i < length operands")
    case True
    from 1(1) [OF True refl lt 1(2)] 1(3) have "min_loop operands (i + 1) m = Inr m" by simp
    with True lt show ?thesis
      by (simp add: min_loop.simps [of operands i m])
  next
    case False
    then show ?thesis by (simp add: min_loop.simps [of operands i m])
  qed
qed

lemma max_loop_first:
  assumes "\<bar>val (operands ! 0)\<bar> < numberLimit * shift" and "m = operands ! 0"
  shows "max_loop operands i m = Inr m"
  using assms
proof (induction operands i m rule: max_loop.induct)
  case (1 operands i m)
  have gt: "greaterThan_decimal (operands ! 0) (FromDecimal m) = Inr False"
    using 1(2,3) by (simp add: greaterThan_decimal_def decimal_FromDecimal)
  show ?case
  proof (cases "i < length operands")
    case True
    from 1(1) [OF True refl gt 1(2)] 1(3) have "max_loop operands (i + 1) m = Inr m" by simp
    with True gt show ?thesis
      by (simp add: max_loop.simps [of operands i m])
  next
    case False
    then show ?thesis by (simp add: max_loop.simps [of operands i m])
  qed
qed

lemma min_max_first:
  assumes "\<bar>val x\<bar> < numberLimit * shift"
  shows "min_decimal (x # xs) = Inr (Some x)" "max_decimal (x # xs) = Inr (Some x)"
  using min_loop_first [of "x # xs" x 1] max_loop_first [of "x # xs" x 1] assms
  by (simp_all add: min_decimal_def max_decimal_def)

text \<open>
  Claim C1. \<^verbatim>\<open>MidaDecimal.min\<close> and \<^verbatim>\<open>MidaDecimal.max\<close> are to return the least and the
  greatest element of a non-empty list. The loops read \<^verbatim>\<open>operands[0]\<close> at every index,
  so on the decimals 5, 1, 3 the minimum returned is 5, and on 1, 5, 3 the maximum
  returned is 1: the first element both times.
\<close>

theorem min_max_return_first_element:
  "new_MidaDecimal ''5'' = Inr (MidaDecimal (5 * 10 ^ 32)) \<and>
   new_MidaDecimal ''1'' = Inr (MidaDecimal (10 ^ 32)) \<and>
   new_MidaDecimal ''3'' = Inr (MidaDecimal (3 * 10 ^ 32)) \<and>
   min_decimal [MidaDecimal (5 * 10 ^ 32), MidaDecimal (10 ^ 32), MidaDecimal (3 * 10 ^ 32)]
     = Inr (Some (MidaDecimal (5 * 10 ^ 32))) \<and>
   max_decimal [MidaDecimal (10 ^ 32), MidaDecimal (5 * 10 ^ 32), MidaDecimal (3 * 10 ^ 32)]
     = Inr (Some (MidaDecimal (10 ^ 32)))"
  by code_simp

section \<open>Errors\<close>

text \<open>
  Claim C7. Dividing by an operand that equals zero fails: the \<^verbatim>\<open>bigint\<close> division of
  \<^verbatim>\<open>#divideRound\<close> throws a RangeError, and no Decimal is returned.
\<close>

theorem divide_by_zero_fails:
  assumes "decimal b = Inr z" and "val z = 0"
  shows "divide_decimal a b = Inl RangeError"
  using assms
  by (simp add: divide_decimal_def divideRound_def divideRoundValue_def BigInt_divide_def)

theorem divide_by_zero_fails_witness:
  "decimal (FromDecimal (MidaDecimal 0)) = Inr (MidaDecimal 0) \<and> val (MidaDecimal 0) = 0 \<and>
   divide_decimal (MidaDecimal (10 ^ 32)) (FromDecimal (MidaDecimal 0)) = Inl RangeError"
proof -
  have d: "decimal (FromDecimal (MidaDecimal 0)) = Inr (MidaDecimal 0)"
    by code_simp
  show ?thesis
    using d divide_by_zero_fails [OF d, of "MidaDecimal (10 ^ 32)"] by simp
qed

text \<open>
  The guard of the constructor: when a part it tests is not a finite number for
  \<^verbatim>\<open>Number\<close>, the constructor throws and returns no Decimal.
\<close>

lemma constructor_guard:
  assumes "constructor_parts s = (isNegative, integers, decimals)"
    and "\<not> Number_isFinite integers \<or> \<not> Number_isFinite decimals"
  shows "new_MidaDecimal s = Inl InvalidDecimal"
  using assms by (auto simp: new_MidaDecimal_def)

lemma constructor_guard_examples:
  "new_MidaDecimal ''12.3x'' = Inl InvalidDecimal"
  "new_MidaDecimal ''abc'' = Inl InvalidDecimal"
  "new_MidaDecimal ''Infinity'' = Inl InvalidDecimal"
  by code_simp+

text \<open>
  Claim C6. An input whose integer part or fractional part is not a finite number is to
  make the constructor throw, never to produce a Decimal. The guard tests the parts
  after the first minus sign has been taken out of each, wherever it stands (removed
  from the integer part, replaced by \<^verbatim>\<open>0\<close> in the fractional part). The integer part
  of the input \<^verbatim>\<open>1-2\<close> is not a number, yet the guard tests \<^verbatim>\<open>12\<close> and the constructor
  returns \<open>-12\<close>; the fractional part of \<^verbatim>\<open>1.2-3\<close> is not a number, yet the guard
  tests \<^verbatim>\<open>203\<close> and the constructor returns \<open>-1.203\<close>.
\<close>

theorem constructor_accepts_minus_inside_a_part:
  "\<not> Number_isFinite ''1-2'' \<and>
   new_MidaDecimal ''1-2'' = Inr (MidaDecimal (- 12 * 10 ^ 32)) \<and>
   \<not> Number_isFinite ''2-3'' \<and>
   new_MidaDecimal ''1.2-3'' = Inr (MidaDecimal (- 1203 * 10 ^ 29))"
  by code_simp

section \<open>Rounding at construction\<close>

text \<open>
  On a decimal string with more than 32 fractional digits whose 33rd is 5 or more, the
  constructor adds one to the signed value of the truncation, whatever the sign.
\<close>

lemma constructor_rounding:
  assumes I: "list_all (\<lambda>c. digitOf c < 10) I" and F: "list_all (\<lambda>c. digitOf c < 10) F"
    and fin: "radixValue 10 I < numberLimit" "radixValue 10 F < numberLimit"
    and long: "32 < length F" and up: "5 \<le> digitOf (F ! 32)"
  shows "new_MidaDecimal ((if neg then ''-'' else []) @ I @ CHR ''.'' # F) =
     Inr (MidaDecimal ((if neg then - 1 else 1) * radixValue 10 (I @ take 32 F) + 1))"
proof -
  have ne: "F \<noteq> []" using long by auto
  have "F ! 32 \<in> set F" using long by simp
  then have "digitOf (F ! 32) < 10" using F by (simp add: list_all_iff)
  then have r: "roundingDigit F"
    using long up by (simp add: roundingDigit_def decimals_count_def isDecimalDigit_def)
  have t: "take decimals_count (padEnd decimals_count CHR ''0'' F) = take 32 F"
    using long by (simp add: padEnd_def decimals_count_def)
  show ?thesis
    using new_MidaDecimal_decimal [OF I F, of neg] ne fin r unfolding t by simp
qed

text \<open>
  Claim C2. With more than 32 fractional digits and a 33rd digit of 5 or more, the
  constructor is to cut the fraction at 32 digits and add one to the magnitude, for
  negative inputs as for positive ones. The constructor adds the rounding bit to the
  signed integer, \<^verbatim>\<open>BigInt("-" + ...) + BigInt(true)\<close>: a positive input gains one unit
  in the last place, while the negative input \<open>-1.000000000000000000000000000000005\<close>
  becomes \<open>-(10^32) + 1\<close>, one unit closer to zero than its truncation \<open>-(10^32)\<close>,
  and \<open>-0.000000000000000000000000000000005\<close> becomes the positive \<open>1\<close>.
\<close>

theorem constructor_rounding_of_negative_input:
  "new_MidaDecimal ''-1.000000000000000000000000000000005'' = Inr (MidaDecimal (- (10 ^ 32) + 1)) \<and>
   new_MidaDecimal ''-1.00000000000000000000000000000000'' = Inr (MidaDecimal (- (10 ^ 32))) \<and>
   new_MidaDecimal ''1.000000000000000000000000000000005'' = Inr (MidaDecimal (10 ^ 32 + 1)) \<and>
   new_MidaDecimal ''-0.000000000000000000000000000000005'' = Inr (MidaDecimal 1)"
  by code_simp

section \<open>Round trip through the string conversion\<close>

lemma divideRoundValue_exact: "divideRoundValue (k * shift) shift = Inr k"
proof -
  have s: "shift \<noteq> 0" "0 < shift" "\<bar>shift\<bar> = shift" by (simp_all add: shift_def)
  have m: "\<bar>k * shift\<bar> mod \<bar>shift\<bar> = 0" by (simp add: abs_mult)
  have d: "\<bar>k * shift\<bar> div \<bar>shift\<bar> = \<bar>k\<bar>" using s by (simp add: abs_mult)
  have "sgn (k * shift) * sgn shift * \<bar>k\<bar> = k" using s by (simp add: sgn_mult mult_sgn_abs)
  then show ?thesis
    using divideRoundValue_eq [OF s(1), of "k * shift"] s(2) unfolding m d by simp
qed

lemma decimal_zero: "decimal (FromString ''0'') = Inr (MidaDecimal 0)"
  by code_simp

lemma decimal_minus_one: "decimal (FromString ''-1'') = Inr (MidaDecimal (- shift))"
  by code_simp

lemma result_roundtrip:
  assumes "decimal (FromString (MidaDecimal_toString v)) = Inr c"
  shows "new_MidaDecimal (toString c) = Inr c"
  using assms unfolding decimal_result
  by (auto simp: toString_def new_MidaDecimal_toString split: if_splits)

lemma divideRound_roundtrip:
  assumes "divideRound n m = Inr c"
  shows "new_MidaDecimal (toString c) = Inr c"
  using assms result_roundtrip by (auto simp: divideRound_def split: sum.splits)

text \<open>
  Claim C4. A Decimal built from a string \<open>s\<close>, converted with \<^verbatim>\<open>toString\<close> and built
  again from that output, is the same Decimal, and \<^verbatim>\<open>equals\<close> says so, whenever the
  integer part of its magnitude is below \<open>2^1024 - 2^970\<close>, the bound under which
  \<^verbatim>\<open>Number\<close> reads the integer part as finite; every result of \<^verbatim>\<open>add\<close>,
  \<^verbatim>\<open>subtract\<close>, \<^verbatim>\<open>multiply\<close> and \<^verbatim>\<open>divide\<close> is within that bound and round-trips.
\<close>

theorem toString_round_trip:
  "(new_MidaDecimal s = Inr d \<and> \<bar>val d\<bar> < numberLimit * shift \<longrightarrow>
      new_MidaDecimal (toString d) = Inr d \<and> equals d (FromString (toString d)) = Inr True \<and>
      equals d (FromDecimal d) = Inr True) \<and>
   (add a p = Inr c \<longrightarrow> new_MidaDecimal (toString c) = Inr c) \<and>
   (subtract a p = Inr c \<longrightarrow> new_MidaDecimal (toString c) = Inr c) \<and>
   (multiply a p = Inr c \<longrightarrow> new_MidaDecimal (toString c) = Inr c) \<and>
   (divide_decimal a p = Inr c \<longrightarrow> new_MidaDecimal (toString c) = Inr c)"
proof -
  have 1: "new_MidaDecimal (toString d) = Inr d \<and> equals d (FromString (toString d)) = Inr True \<and>
      equals d (FromDecimal d) = Inr True"
    if "\<bar>val d\<bar> < numberLimit * shift"
    using that by (simp add: toString_def new_MidaDecimal_toString equals_def decimal_def)
  have 2: "new_MidaDecimal (toString c) = Inr c" if "add a p = Inr c"
    using that result_roundtrip by (auto simp: add_def split: sum.splits)
  have 3: "new_MidaDecimal (toString c) = Inr c" if "subtract a p = Inr c"
    using that result_roundtrip by (auto simp: subtract_def split: sum.splits)
  have 4: "new_MidaDecimal (toString c) = Inr c" if "multiply a p = Inr c"
    using that divideRound_roundtrip by (auto simp: multiply_def split: sum.splits)
  have 5: "new_MidaDecimal (toString c) = Inr c" if "divide_decimal a p = Inr c"
    using that divideRound_roundtrip by (auto simp: divide_decimal_def split: sum.splits)
  from 1 2 3 4 5 show ?thesis by blast
qed

theorem toString_round_trip_witness:
  "new_MidaDecimal ''-12.50'' = Inr (MidaDecimal (- 125 * 10 ^ 31)) \<and>
   \<bar>val (MidaDecimal (- 125 * 10 ^ 31))\<bar> < numberLimit * shift \<and>
   toString (MidaDecimal (- 125 * 10 ^ 31)) = ''-12.5'' \<and>
   new_MidaDecimal (toString (MidaDecimal (- 125 * 10 ^ 31))) = Inr (MidaDecimal (- 125 * 10 ^ 31)) \<and>
   equals (MidaDecimal (- 125 * 10 ^ 31)) (FromString (toString (MidaDecimal (- 125 * 10 ^ 31))))
     = Inr True \<and>
   add (MidaDecimal (10 ^ 31)) (FromString ''0.2'') = Inr (MidaDecimal (3 * 10 ^ 31)) \<and>
   new_MidaDecimal (toString (MidaDecimal (3 * 10 ^ 31))) = Inr (MidaDecimal (3 * 10 ^ 31)) \<and>
   divide_decimal (MidaDecimal (- 2 * 10 ^ 32)) (FromString ''3'')
     = Inr (MidaDecimal (- 66666666666666666666666666666667)) \<and>
   new_MidaDecimal (toString (MidaDecimal (- 66666666666666666666666666666667)))
     = Inr (MidaDecimal (- 66666666666666666666666666666667))"
proof -
  have n: "new_MidaDecimal ''-12.50'' = Inr (MidaDecimal (- 125 * 10 ^ 31))"
    by code_simp
  have r: "\<bar>val (MidaDecimal (- 125 * 10 ^ 31))\<bar> < numberLimit * shift"
    by (simp add: numberLimit_def shift_def)
  have t: "toString (MidaDecimal (- 125 * 10 ^ 31)) = ''-12.5''"
    by code_simp
  have a: "add (MidaDecimal (10 ^ 31)) (FromString ''0.2'') = Inr (MidaDecimal (3 * 10 ^ 31))"
    by code_simp
  have d: "divide_decimal (MidaDecimal (- 2 * 10 ^ 32)) (FromString ''3'')
      = Inr (MidaDecimal (- 66666666666666666666666666666667))"
    by code_simp
  from toString_round_trip [of "''-12.50''" "MidaDecimal (- 125 * 10 ^ 31)"] n r
  have 1: "new_MidaDecimal (toString (MidaDecimal (- 125 * 10 ^ 31))) = Inr (MidaDecimal (- 125 * 10 ^ 31)) \<and>
     equals (MidaDecimal (- 125 * 10 ^ 31)) (FromString (toString (MidaDecimal (- 125 * 10 ^ 31))))
       = Inr True"
    by blast
  from toString_round_trip [of _ _ "MidaDecimal (10 ^ 31)" "FromString ''0.2''" "MidaDecimal (3 * 10 ^ 31)"] a
  have 2: "new_MidaDecimal (toString (MidaDecimal (3 * 10 ^ 31))) = Inr (MidaDecimal (3 * 10 ^ 31))"
    by blast
  from toString_round_trip [of _ _ "MidaDecimal (- 2 * 10 ^ 32)" "FromString ''3''"
      "MidaDecimal (- 66666666666666666666666666666667)"] d
  have 3: "new_MidaDecimal (toString (MidaDecimal (- 66666666666666666666666666666667)))
      = Inr (MidaDecimal (- 66666666666666666666666666666667))"
    by blast
  from n r t a d 1 2 3 show ?thesis by blast
qed

text \<open>
  Without the bound the round trip fails: the integer part \<open>2^1024 - 2^970 - 1\<close> is
  still finite for \<^verbatim>\<open>Number\<close>, the fraction of 32 nines followed by a 5 rounds up and
  carries into it, and the string of the Decimal so built is rejected by the constructor.
\<close>

theorem toString_round_trip_counterexample:
  "new_MidaDecimal ''179769313486231580793728971405303415079934132710037826936173778980444968292764750946649017977587207096330286416692887910946555547851940402630657488671505820681908902000708383676273854845817711531764475730270069855571366959622842914819860834936475292719074168444365510704342711559699508093042880177904174497791.999999999999999999999999999999995'' = Inr (MidaDecimal (numberLimit * shift)) \<and>
   new_MidaDecimal (toString (MidaDecimal (numberLimit * shift))) = Inl InvalidDecimal"
  using new_at_limit at_limit_rejected by (simp add: decimal_def)

section \<open>Addition and subtraction\<close>

text \<open>
  Claim C5. For Decimals \<open>a\<close> and \<open>b\<close>, \<^verbatim>\<open>a.add(b).subtract(b).equals(a)\<close> is true with
  no drift, as long as \<open>a\<close>, \<open>b\<close> and the sum have an integer part below
  \<open>2^1024 - 2^970\<close> in magnitude, so that the constructor accepts the strings the
  three methods pass through: \<^verbatim>\<open>add\<close> returns the exact sum, \<^verbatim>\<open>subtract\<close> returns
  \<open>a\<close> itself, and \<^verbatim>\<open>equals\<close> returns true.
\<close>

theorem add_then_subtract_is_exact:
  assumes "\<bar>val a\<bar> < numberLimit * shift" and "\<bar>val b\<bar> < numberLimit * shift"
    and "\<bar>val a + val b\<bar> < numberLimit * shift"
  shows "add a (FromDecimal b) = Inr (MidaDecimal (val a + val b)) \<and>
         subtract (MidaDecimal (val a + val b)) (FromDecimal b) = Inr a \<and>
         equals a (FromDecimal a) = Inr True"
  using assms by (rule add_subtract_equals)

theorem add_then_subtract_is_exact_witness:
  "new_MidaDecimal ''0.1'' = Inr (MidaDecimal (10 ^ 31)) \<and>
   new_MidaDecimal ''0.2'' = Inr (MidaDecimal (2 * 10 ^ 31)) \<and>
   new_MidaDecimal ''0.3'' = Inr (MidaDecimal (3 * 10 ^ 31)) \<and>
   add (MidaDecimal (10 ^ 31)) (FromDecimal (MidaDecimal (2 * 10 ^ 31))) = Inr (MidaDecimal (3 * 10 ^ 31)) \<and>
   equals (MidaDecimal (3 * 10 ^ 31)) (FromDecimal (MidaDecimal (3 * 10 ^ 31))) = Inr True \<and>
   subtract (MidaDecimal (3 * 10 ^ 31)) (FromDecimal (MidaDecimal (2 * 10 ^ 31))) = Inr (MidaDecimal (10 ^ 31)) \<and>
   equals (MidaDecimal (10 ^ 31)) (FromDecimal (MidaDecimal (10 ^ 31))) = Inr True"
proof -
  have s: "new_MidaDecimal ''0.1'' = Inr (MidaDecimal (10 ^ 31))"
    "new_MidaDecimal ''0.2'' = Inr (MidaDecimal (2 * 10 ^ 31))"
    "new_MidaDecimal ''0.3'' = Inr (MidaDecimal (3 * 10 ^ 31))"
    by code_simp+
  have r: "\<bar>val (MidaDecimal (10 ^ 31))\<bar> < numberLimit * shift"
    "\<bar>val (MidaDecimal (2 * 10 ^ 31))\<bar> < numberLimit * shift"
    "\<bar>val (MidaDecimal (3 * 10 ^ 31))\<bar> < numberLimit * shift"
    "\<bar>val (MidaDecimal (10 ^ 31)) + val (MidaDecimal (2 * 10 ^ 31))\<bar> < numberLimit * shift"
    "\<bar>val (MidaDecimal (3 * 10 ^ 31)) + val (MidaDecimal 0)\<bar> < numberLimit * shift"
    "\<bar>val (MidaDecimal 0)\<bar> < numberLimit * shift"
    by (simp_all add: numberLimit_def shift_def)
  show ?thesis
    using s add_then_subtract_is_exact [OF r(1) r(2) r(4)]
      add_then_subtract_is_exact [OF r(3) r(6) r(5)]
    by simp
qed

text \<open>
  Without the bound the chain throws at its first step: \<open>10^308\<close> is a Decimal, and
  adding it to itself gives a sum whose integer part \<^verbatim>\<open>Number\<close> reads as infinite.
\<close>

theorem add_overflow_counterexample:
  "new_MidaDecimal (CHR ''1'' # replicate 308 CHR ''0'') = Inr (MidaDecimal (10 ^ 340)) \<and>
   add (MidaDecimal (10 ^ 340)) (FromDecimal (MidaDecimal (10 ^ 340))) = Inl InvalidDecimal"
  using new_MidaDecimal_1e308 add_1e308_overflow by simp

section \<open>The absolute value\<close>

text \<open>
  Claim C8. For every Decimal \<open>x\<close>, one the constructor has returned, \<^verbatim>\<open>abs(x)\<close> is
  \<open>x\<close> itself when \<open>x\<close> is not less than zero, and is \<open>x.multiply(-1)\<close>, the Decimal of
  the negated value, when \<open>x\<close> is less than zero.
\<close>

theorem abs_negates_below_zero:
  assumes "new_MidaDecimal s = Inr x"
  shows "lessThan_decimal x (FromString ''0'') = Inr (val x < 0) \<and>
         abs_decimal x = (if val x < 0 then multiply x (FromString ''-1'') else Inr x) \<and>
         abs_decimal x = Inr (if val x < 0 then MidaDecimal (- val x) else x)"
proof -
  have lt: "lessThan_decimal x (FromString ''0'') = Inr (val x < 0)"
    by (simp add: lessThan_decimal_def decimal_zero)
  have ab: "abs_decimal x = (if val x < 0 then multiply x (FromString ''-1'') else Inr x)"
    by (simp add: abs_decimal_def lt)
  have "multiply x (FromString ''-1'') = Inr (MidaDecimal (- val x))" if neg: "val x < 0"
  proof -
    have "val x * - shift = (- val x) * shift" by simp
    then have "divideRoundValue (val x * - shift) shift = Inr (- val x)"
      using divideRoundValue_exact [of "- val x"] by simp
    moreover have "\<bar>- val x\<bar> < numberLimit * shift"
      using constructed_negative [OF assms neg] neg by simp
    ultimately show ?thesis
      by (simp add: multiply_def decimal_minus_one divideRound_def decimal_result)
  qed
  with lt ab show ?thesis by simp
qed

theorem abs_negates_below_zero_witness:
  "new_MidaDecimal ''-2.5'' = Inr (MidaDecimal (- 25 * 10 ^ 31)) \<and>
   new_MidaDecimal ''2.5'' = Inr (MidaDecimal (25 * 10 ^ 31)) \<and>
   abs_decimal (MidaDecimal (- 25 * 10 ^ 31)) = Inr (MidaDecimal (25 * 10 ^ 31)) \<and>
   abs_decimal (MidaDecimal (25 * 10 ^ 31)) = Inr (MidaDecimal (25 * 10 ^ 31)) \<and>
   equals (MidaDecimal (25 * 10 ^ 31)) (FromString ''2.5'') = Inr True"
proof -
  have n: "new_MidaDecimal ''-2.5'' = Inr (MidaDecimal (- 25 * 10 ^ 31))"
    by code_simp
  have p: "new_MidaDecimal ''2.5'' = Inr (MidaDecimal (25 * 10 ^ 31))"
    by code_simp
  have e: "equals (MidaDecimal (25 * 10 ^ 31)) (FromString ''2.5'') = Inr True"
    by (simp add: equals_def decimal_def p)
  show ?thesis
    using n p e abs_negates_below_zero [OF n, THEN conjunct2, THEN conjunct2]
      abs_negates_below_zero [OF p, THEN conjunct2, THEN conjunct2] by simp
qed

section \<open>Comparison\<close>

text \<open>
  Claim C10. For Decimals \<open>a\<close> and \<open>b\<close>, with the integer part of \<open>b\<close> below
  \<open>2^1024 - 2^970\<close> in magnitude so that the constructor accepts its string, exactly
  one of \<^verbatim>\<open>a.lessThan(b)\<close>, \<^verbatim>\<open>a.equals(b)\<close> and \<^verbatim>\<open>a.greaterThan(b)\<close> is true, and
  \<^verbatim>\<open>greaterThanOrEqual\<close> and \<^verbatim>\<open>lessThanOrEqual\<close> are the disjunctions of the strict
  comparison with \<^verbatim>\<open>equals\<close>.
\<close>

theorem comparison_trichotomy:
  assumes "\<bar>val b\<bar> < numberLimit * shift"
  shows "\<exists>l e g.
     lessThan_decimal a (FromDecimal b) = Inr l \<and> equals a (FromDecimal b) = Inr e \<and>
     greaterThan_decimal a (FromDecimal b) = Inr g \<and>
     ((l \<and> \<not> e \<and> \<not> g) \<or> (e \<and> \<not> l \<and> \<not> g) \<or> (g \<and> \<not> l \<and> \<not> e)) \<and>
     greaterThanOrEqual a (FromDecimal b) = Inr (g \<or> e) \<and>
     lessThanOrEqual a (FromDecimal b) = Inr (l \<or> e)"
  using assms
  by (auto simp: lessThan_decimal_def equals_def greaterThan_decimal_def greaterThanOrEqual_def
      lessThanOrEqual_def decimal_FromDecimal)

theorem comparison_trichotomy_witness:
  "\<bar>val (MidaDecimal (3 * 10 ^ 31))\<bar> < numberLimit * shift \<and>
   lessThan_decimal (MidaDecimal (10 ^ 31)) (FromDecimal (MidaDecimal (3 * 10 ^ 31))) = Inr True \<and>
   equals (MidaDecimal (10 ^ 31)) (FromDecimal (MidaDecimal (3 * 10 ^ 31))) = Inr False \<and>
   greaterThan_decimal (MidaDecimal (10 ^ 31)) (FromDecimal (MidaDecimal (3 * 10 ^ 31))) = Inr False \<and>
   greaterThanOrEqual (MidaDecimal (10 ^ 31)) (FromDecimal (MidaDecimal (3 * 10 ^ 31))) = Inr False \<and>
   lessThanOrEqual (MidaDecimal (10 ^ 31)) (FromDecimal (MidaDecimal (3 * 10 ^ 31))) = Inr True"
proof -
  have r: "\<bar>val (MidaDecimal (3 * 10 ^ 31))\<bar> < numberLimit * shift"
    by (simp add: numberLimit_def shift_def)
  from comparison_trichotomy [OF r, of "MidaDecimal (10 ^ 31)"] r show ?thesis
    by (auto simp: lessThan_decimal_def equals_def greaterThan_decimal_def greaterThanOrEqual_def
      lessThanOrEqual_def decimal_FromDecimal)
qed

text \<open>
  Without the bound none of the three is true: the Decimal built from the integer part
  \<open>2^1024 - 2^970 - 1\<close> with a fraction that rounds up into it makes every comparison
  throw when it is the operand.
\<close>

theorem comparison_counterexample:
  "new_MidaDecimal ''179769313486231580793728971405303415079934132710037826936173778980444968292764750946649017977587207096330286416692887910946555547851940402630657488671505820681908902000708383676273854845817711531764475730270069855571366959622842914819860834936475292719074168444365510704342711559699508093042880177904174497791.999999999999999999999999999999995'' = Inr (MidaDecimal (numberLimit * shift)) \<and>
   lessThan_decimal (MidaDecimal 0) (FromDecimal (MidaDecimal (numberLimit * shift))) = Inl InvalidDecimal \<and>
   equals (MidaDecimal 0) (FromDecimal (MidaDecimal (numberLimit * shift))) = Inl InvalidDecimal \<and>
   greaterThan_decimal (MidaDecimal 0) (FromDecimal (MidaDecimal (numberLimit * shift))) = Inl InvalidDecimal"
  using new_at_limit at_limit_rejected
  by (simp add: lessThan_decimal_def equals_def greaterThan_decimal_def)

section \<open>Listeners of the emitter\<close>

text \<open>
  A dispatch keeps the persistent registration of an id and invokes it at most once; it
  invokes it exactly once when the callbacks of the registrations before it return.
\<close>

lemma invocationsCount_append [simp]:
  "invocationsCount i (xs @ ys) = invocationsCount i xs + invocationsCount i ys"
  by (simp add: invocationsCount_def)

lemma invocationsCount_Nil [simp]: "invocationsCount i [] = 0"
  by (simp add: invocationsCount_def)

lemma invocationsCount_Cons [simp]:
  "invocationsCount i (x # xs) = (if fst x = i then 1 else 0) + invocationsCount i xs"
  by (simp add: invocationsCount_def)








lemma remove_issued [simp]: "issued (removeEventListener j e) = issued e"
  by (simp add: removeEventListener_def)

lemma notify_issued [simp]: "issued (fst (snd (notifyListeners t' d now e))) = issued e"
  by (simp add: notifyListeners_def split: prod.splits)























end
